theory Spec2Isabelle
  imports Complex_Main "HOL-Library.AList" "HOL-Library.Sublist" "HOL-Library.List_Lexorder"
begin

section \<open>Python dictionaries and values\<close>

type_synonym key = string

text \<open>A Python \<^verbatim>\<open>dict\<close> keeps its keys in insertion order: an association list whose
  first components are the keys.  \<^const>\<open>AList.update\<close> overwrites in place or appends,
  \<^const>\<open>AList.delete\<close> removes the key.\<close>

type_synonym ('k, 'v) dict = "('k \<times> 'v) list"

definition dict_contains :: "('k, 'v) dict \<Rightarrow> 'k \<Rightarrow> bool" where
  "dict_contains d k = (map_of d k \<noteq> None)"

definition dict_get :: "('k, 'v) dict \<Rightarrow> 'k \<Rightarrow> 'v \<Rightarrow> 'v" where
  "dict_get d k dflt = (case map_of d k of None \<Rightarrow> dflt | Some v \<Rightarrow> v)"

datatype cell = Null | Str string | Num int

datatype dtype = ObjectDtype | NumericDtype

record dataframe =
  index :: "int list"
  columns :: "(string \<times> dtype \<times> cell list) list"

datatype val =
    PyNone
  | PyStr string
  | PyInt int
  | DataFrame dataframe
  | FileSystem "(string \<times> val) list"

datatype error =
    KeyError string
  | KeyNotInContextError string
  | KeyInContextHasNoValueError string
  | StateAccessError string
  | RuntimeError string
  | ValueError string
  | TypeError string
  | AssertionError
  | UnboundLocalError string

section \<open>The workflow state (\<^verbatim>\<open>core/workflow/state.py\<close>)\<close>

type_synonym ctx = "(key, val) dict"

type_synonym loader = "ctx \<Rightarrow> error + (val \<times> ctx)"

text \<open>The class-level registries of \<^verbatim>\<open>State\<close>.\<close>

record registry =
  LOADABLE_TABLES :: "(key, loader) dict"
  LOADABLE_OBJECTS :: "(key, loader) dict"
  PREDICATES :: "(key, key list) dict"
  TEMP_NAMES :: "key list"

text \<open>One \<^verbatim>\<open>State\<close> object: the pypyr context, the table status dictionary (kept by the
  source under the reserved context key \<^verbatim>\<open>_salient_tables\<close>, here a field of its own),
  and what the checkpoint accessor holds: \<^verbatim>\<open>last_checkpoint\<close>, the log \<^verbatim>\<open>checkpoints\<close>
  and the pipeline store.\<close>

record state =
  context_dict :: ctx
  existing_table_status :: "(key, bool) dict"
  last_checkpoint :: "(string, string) dict"
  checkpoints :: "(string, string) dict list"
  pipeline_store :: "(key \<times> string, dataframe) dict"

subsection \<open>\<^verbatim>\<open>State.drop\<close> and \<^verbatim>\<open>State.set\<close>\<close>

text \<open>\<^verbatim>\<open>drop\<close> deletes the key (\<^verbatim>\<open>del\<close> raises \<^verbatim>\<open>KeyError\<close> on a missing key) and then
  runs the loop over \<^verbatim>\<open>_PREDICATES.get(key, [])\<close>, which calls \<^verbatim>\<open>drop\<close> again on every
  dependent that is in the context when its turn comes.\<close>

function State_drop :: "registry \<Rightarrow> key \<Rightarrow> state \<Rightarrow> error + state"
  and drop_predicated :: "registry \<Rightarrow> key list \<Rightarrow> state \<Rightarrow> error + state"
where
  "State_drop R k s =
     (if dict_contains (context_dict s) k
      then drop_predicated R (dict_get (PREDICATES R) k [])
             (s\<lparr>context_dict := AList.delete k (context_dict s)\<rparr>)
      else Inl (KeyError k))"
| "drop_predicated R [] s = Inr s"
| "drop_predicated R (i # rest) s =
     (if dict_contains (context_dict s) i
      then (case State_drop R i s of
              Inl e \<Rightarrow> Inl e
            | Inr s' \<Rightarrow> drop_predicated R rest s')
      else drop_predicated R rest s)"
  by pat_completeness auto

termination
proof -
  have length_delete_less: "length (AList.delete k c) < length c"
    if "k \<in> fst ` set c" for k :: key and c :: ctx
  proof -
    from that obtain v where "(k, v) \<in> set c" by auto
    then show ?thesis
      unfolding AList.delete_eq by (intro length_filter_less [where x = "(k, v)"]) simp_all
  qed
  have dict_contains_iff: "dict_contains d k \<longleftrightarrow> k \<in> fst ` set d" for k :: key and d :: ctx
    by (simp add: dict_contains_def map_of_eq_None_iff)
  have shrinks:
    "(State_drop_drop_predicated_dom (Inl (R, k, s)) \<longrightarrow>
       (\<forall>s'. State_drop R k s = Inr s' \<longrightarrow> length (context_dict s') < length (context_dict s)))
     \<and> (State_drop_drop_predicated_dom (Inr (R, ks, s)) \<longrightarrow>
       (\<forall>s'. drop_predicated R ks s = Inr s' \<longrightarrow> length (context_dict s') \<le> length (context_dict s)))"
    for R k ks s
  proof -
    have
      "State_drop_drop_predicated_dom (Inl (R, k, s)) \<Longrightarrow>
         \<forall>s'. State_drop R k s = Inr s' \<longrightarrow> length (context_dict s') < length (context_dict s)"
      "State_drop_drop_predicated_dom (Inr (R, ks, s)) \<Longrightarrow>
         \<forall>s'. drop_predicated R ks s = Inr s' \<longrightarrow> length (context_dict s') \<le> length (context_dict s)"
    proof (induction rule: State_drop_drop_predicated.pinduct)
      case (1 R k s)
      show ?case
      proof (cases "dict_contains (context_dict s) k")
        case True
        show ?thesis
        proof (intro allI impI)
          fix s' assume "State_drop R k s = Inr s'"
          with True 1(1)
          have "drop_predicated R (dict_get (PREDICATES R) k [])
                  (s\<lparr>context_dict := AList.delete k (context_dict s)\<rparr>) = Inr s'"
            by (simp add: State_drop.psimps)
          with 1(2) [OF True]
          have "length (context_dict s') \<le> length (AList.delete k (context_dict s))" by fastforce
          with length_delete_less [of k "context_dict s"] True
          show "length (context_dict s') < length (context_dict s)"
            by (simp add: dict_contains_iff)
        qed
      next
        case False
        with 1 show ?thesis by (simp add: State_drop.psimps)
      qed
    next
      case (2 R s)
      then show ?case by (simp add: drop_predicated.psimps)
    next
      case (3 R i rest s)
      show ?case
      proof (intro allI impI)
        fix s' assume res: "drop_predicated R (i # rest) s = Inr s'"
        show "length (context_dict s') \<le> length (context_dict s)"
        proof (cases "dict_contains (context_dict s) i")
          case True
          with res 3(1) obtain s1
            where s1: "State_drop R i s = Inr s1" "drop_predicated R rest s1 = Inr s'"
            by (auto simp: drop_predicated.psimps split: sum.splits)
          from 3(2) [OF True] s1(1) have "length (context_dict s1) < length (context_dict s)" by blast
          moreover from 3(3) [OF True s1(1)] s1(2)
          have "length (context_dict s') \<le> length (context_dict s1)" by blast
          ultimately show ?thesis by simp
        next
          case False
          with res 3(1) have "drop_predicated R rest s = Inr s'"
            by (simp add: drop_predicated.psimps)
          with 3(4) [OF False] show ?thesis by blast
        qed
      qed
    qed
    then show ?thesis by blast
  qed
  show ?thesis
  proof (relation "inv_image (less_than <*lex*> less_than)
       (\<lambda>x. case x of Inl (R, k, s) \<Rightarrow> (length (context_dict s), 0)
                    | Inr (R, ks, s) \<Rightarrow> (length (context_dict s), Suc (length ks)))", goal_cases)
    case 1
    show ?case by (rule wf_inv_image) (simp add: wf_lex_prod)
  next
    case (2 R k s)
    then show ?case
      using length_delete_less [of k "context_dict s"] by (simp add: dict_contains_iff)
  next
    case 3
    then show ?case by simp
  next
    case (4 R i rest s b)
    then have "length (context_dict b) < length (context_dict s)"
      using shrinks [of R i s] by blast
    then show ?case by simp
  next
    case 5
    then show ?case by simp
  qed
qed

text \<open>\<^verbatim>\<open>set\<close> writes the value and runs the same loop over the dependents of the key.\<close>

definition State_set :: "registry \<Rightarrow> key \<Rightarrow> val \<Rightarrow> state \<Rightarrow> error + state" where
  "State_set R k v s =
     drop_predicated R (dict_get (PREDICATES R) k [])
       (s\<lparr>context_dict := AList.update k v (context_dict s)\<rparr>)"

text \<open>The registered dependency relation: \<open>d\<close> is predicated on \<open>k\<close>.\<close>

definition predicated_on :: "registry \<Rightarrow> (key \<times> key) set" where
  "predicated_on R = {(k, d). d \<in> set (dict_get (PREDICATES R) k [])}"

definition State_contains :: "state \<Rightarrow> key \<Rightarrow> bool" where
  "State_contains s k = dict_contains (context_dict s) k"

subsection \<open>\<^verbatim>\<open>State.get\<close>\<close>

definition NO_DEFAULT :: string where
  "NO_DEFAULT = ''throw error if missing''"

text \<open>\<^verbatim>\<open>StateAttr.__get__\<close> with \<^verbatim>\<open>default_init=False\<close>, as for \<^verbatim>\<open>State.filesystem\<close>.\<close>

definition StateAttr_get :: "string \<Rightarrow> state \<Rightarrow> error + val" where
  "StateAttr_get name s =
     (case map_of (context_dict s) name of
        Some v \<Rightarrow> Inr v
      | None \<Rightarrow> Inl (StateAccessError (name @ '' not initialized for this state'')))"

text \<open>Python's \<^verbatim>\<open>getattr(obj, name, default)\<close>.  Only the attributes of a \<^verbatim>\<open>FileSystem\<close>
  object are modelled; the built-in attributes of the other values are left out.\<close>

definition py_getattr :: "val \<Rightarrow> string \<Rightarrow> val \<Rightarrow> val" where
  "py_getattr obj name dflt =
     (case obj of FileSystem attrs \<Rightarrow> dict_get attrs name dflt | _ \<Rightarrow> dflt)"

text \<open>\<^verbatim>\<open>Context.assert_key_has_value(key, caller)\<close> of the pypyr library, after its
  documentation: \<^verbatim>\<open>AssertionError\<close> for an empty key, \<^verbatim>\<open>KeyNotInContextError\<close> when the
  key does not exist, \<^verbatim>\<open>KeyInContextHasNoValueError\<close> when its value is \<^verbatim>\<open>None\<close>.
  The result is the exception raised, if any.\<close>

definition doesnt_exist :: "key \<Rightarrow> string \<Rightarrow> string" where
  "doesnt_exist k caller =
     ''context['' @ [CHR 0x27] @ k @ [CHR 0x27] @ ''] doesn't exist. It must exist for ''
       @ caller @ ''.''"

definition must_have_a_value :: "key \<Rightarrow> string \<Rightarrow> string" where
  "must_have_a_value k caller =
     ''context['' @ [CHR 0x27] @ k @ [CHR 0x27] @ ''] must have a value for '' @ caller @ ''.''"

definition assert_key_has_value :: "ctx \<Rightarrow> key \<Rightarrow> string \<Rightarrow> error option" where
  "assert_key_has_value c k caller =
     (if k = [] then Some AssertionError
      else case map_of c k of
        None \<Rightarrow> Some (KeyNotInContextError (doesnt_exist k caller))
      | Some v \<Rightarrow>
          (if v = PyNone then Some (KeyInContextHasNoValueError (must_have_a_value k caller))
           else None))"

definition is_frame :: "val \<Rightarrow> bool" where
  "is_frame v = (case v of DataFrame _ \<Rightarrow> True | _ \<Rightarrow> False)"

text \<open>\<^verbatim>\<open>State.get(key, default)\<close> for a string key.  A call without a default passes
  \<^verbatim>\<open>NO_DEFAULT\<close>.  The first parameter stands for pypyr's
  \<^verbatim>\<open>Context.get_formatted_value\<close>, which interpolates format expressions in strings from
  the context and may raise.  A loader is called with the context and may change it.
  Comparing a data frame default with \<^verbatim>\<open>NO_DEFAULT\<close> gives a frame, whose truth value
  pandas refuses with a \<^verbatim>\<open>ValueError\<close>.\<close>

definition State_get ::
  "(ctx \<Rightarrow> val \<Rightarrow> error + val) \<Rightarrow> registry \<Rightarrow> key \<Rightarrow> val \<Rightarrow> state \<Rightarrow> error + (val \<times> state)"
where
  "State_get get_formatted_value R k dflt s =
     (let result = dict_get (context_dict s) k PyNone;
          result = (if result = PyNone
                    then (case StateAttr_get ''filesystem'' s of
                            Inl _ \<Rightarrow> PyNone
                          | Inr fs \<Rightarrow> py_getattr fs k PyNone)
                    else result);
          loaded = (if result = PyNone
                    then (case map_of (LOADABLE_TABLES R) k of
                            Some load \<Rightarrow> load (context_dict s)
                          | None \<Rightarrow>
                             (case map_of (LOADABLE_OBJECTS R) k of
                                Some load \<Rightarrow> load (context_dict s)
                              | None \<Rightarrow> Inr (result, context_dict s)))
                    else Inr (result, context_dict s))
      in case loaded of
           Inl e \<Rightarrow> Inl e
         | Inr (result, c) \<Rightarrow>
            (case (if result = PyNone
                   then (if is_frame dflt
                         then Inl (ValueError ''The truth value of a DataFrame is ambiguous'')
                         else if dflt \<noteq> PyStr NO_DEFAULT then Inr dflt
                         else (case assert_key_has_value c k ''State'' of
                                 Some e \<Rightarrow> Inl e
                               | None \<Rightarrow> Inl (KeyError k)))
                   else Inr result) of
               Inl e \<Rightarrow> Inl e
             | Inr result \<Rightarrow>
                (if is_frame result then Inr (result, s\<lparr>context_dict := c\<rparr>)
                 else (case get_formatted_value c result of
                         Inl e \<Rightarrow> Inl e
                       | Inr r \<Rightarrow> Inr (r, s\<lparr>context_dict := c\<rparr>)))))"

subsection \<open>Tables\<close>

text \<open>\<^verbatim>\<open>State.add_table(name, content, salient=None)\<close>.\<close>

definition State_add_table :: "registry \<Rightarrow> key \<Rightarrow> val \<Rightarrow> bool option \<Rightarrow> state \<Rightarrow> error + state" where
  "State_add_table R name content salient s =
     (let salient = (case salient of None \<Rightarrow> name \<notin> set (TEMP_NAMES R) | Some b \<Rightarrow> b);
          s = (if salient
               then s\<lparr>existing_table_status := AList.update name True (existing_table_status s)\<rparr>
               else s)
      in State_set R name content s)"

definition State_is_table :: "state \<Rightarrow> key \<Rightarrow> bool" where
  "State_is_table s name = dict_contains (existing_table_status s) name"

text \<open>The two lookups of \<^verbatim>\<open>State.get\<close> by themselves: the loader it finds for a key (a
  table loader before an object loader), and the attribute of the filesystem object it
  falls back to (\<^verbatim>\<open>None\<close> when the state has no filesystem or the attribute is missing).\<close>

definition registered_loader :: "registry \<Rightarrow> key \<Rightarrow> loader option" where
  "registered_loader R k =
     (case map_of (LOADABLE_TABLES R) k of
        Some load \<Rightarrow> Some load
      | None \<Rightarrow> map_of (LOADABLE_OBJECTS R) k)"

definition filesystem_attr :: "state \<Rightarrow> key \<Rightarrow> val" where
  "filesystem_attr s k =
     (case StateAttr_get ''filesystem'' s of
        Inl _ \<Rightarrow> PyNone
      | Inr fs \<Rightarrow> py_getattr fs k PyNone)"

subsection \<open>Data frames (the pandas operations that \<^verbatim>\<open>extend_table\<close> uses)\<close>

definition column_names :: "dataframe \<Rightarrow> string list" where
  "column_names df = map fst (columns df)"

definition column_dtype :: "dataframe \<Rightarrow> string \<Rightarrow> dtype option" where
  "column_dtype df c = map_option fst (map_of (columns df) c)"

text \<open>The values of a column; a column that the frame does not have is all null, as
  \<^verbatim>\<open>pd.concat\<close> fills it.\<close>

definition column_values :: "dataframe \<Rightarrow> string \<Rightarrow> cell list" where
  "column_values df c =
     (case map_of (columns df) c of
        Some (_, vs) \<Rightarrow> vs
      | None \<Rightarrow> replicate (length (index df)) Null)"

text \<open>\<^verbatim>\<open>table_df.index.intersection(df.index)\<close>: the labels of the first index that occur in
  the second.\<close>

definition index_intersection :: "int list \<Rightarrow> int list \<Rightarrow> int list" where
  "index_intersection xs ys = remdups (filter (\<lambda>i. i \<in> set ys) xs)"

text \<open>The dtype of a column of the concatenation: the common dtype of the two columns, or
  object when they differ.\<close>

definition concat_dtype :: "dataframe \<Rightarrow> dataframe \<Rightarrow> string \<Rightarrow> dtype" where
  "concat_dtype a b c =
     (case (column_dtype a c, column_dtype b c) of
        (Some d, Some d') \<Rightarrow> (if d = d' then d else ObjectDtype)
      | (Some d, None) \<Rightarrow> d
      | (None, Some d') \<Rightarrow> d'
      | (None, None) \<Rightarrow> ObjectDtype)"

text \<open>\<^verbatim>\<open>pd.concat([a, b], sort=False, axis=0)\<close>: the rows of \<open>b\<close> under the rows of \<open>a\<close>; the
  columns of \<open>a\<close> in their order, then the columns that only \<open>b\<close> has.\<close>

definition pd_concat_rows :: "dataframe \<Rightarrow> dataframe \<Rightarrow> dataframe" where
  "pd_concat_rows a b =
     \<lparr>index = index a @ index b,
      columns = map (\<lambda>c. (c, concat_dtype a b c, column_values a c @ column_values b c))
                  (column_names a @ filter (\<lambda>c. c \<notin> set (column_names a)) (column_names b))\<rparr>"

text \<open>\<^verbatim>\<open>pd.concat([a, b], sort=False, axis=1)\<close> for frames with the same index.\<close>

definition pd_concat_columns :: "dataframe \<Rightarrow> dataframe \<Rightarrow> dataframe" where
  "pd_concat_columns a b = \<lparr>index = index a, columns = columns a @ columns b\<rparr>"

text \<open>\<^verbatim>\<open>df[cols]\<close>.\<close>

definition select_columns :: "dataframe \<Rightarrow> string list \<Rightarrow> dataframe" where
  "select_columns df cols =
     \<lparr>index = index df,
      columns = map (\<lambda>c. (c, concat_dtype df df c, column_values df c)) cols\<rparr>"

text \<open>\<^verbatim>\<open>fillna(v)\<close> on one cell, and \<^verbatim>\<open>df[c] = df[c].fillna(v)\<close>.\<close>

definition fillna :: "string \<Rightarrow> cell \<Rightarrow> cell" where
  "fillna v x = (if x = Null then Str v else x)"

definition fillna_column :: "string \<Rightarrow> string \<Rightarrow> dataframe \<Rightarrow> dataframe" where
  "fillna_column c v df =
     df\<lparr>columns := map (\<lambda>(n, d, vs). if n = c then (n, d, map (fillna v) vs) else (n, d, vs))
                       (columns df)\<rparr>"

subsection \<open>\<^verbatim>\<open>State.get_dataframe\<close> and \<^verbatim>\<open>State.extend_table\<close>\<close>

text \<open>\<^verbatim>\<open>State._load_or_create_dataset(table_name)\<close> with \<^verbatim>\<open>overwrite=False\<close> and
  \<^verbatim>\<open>swallow_errors=False\<close>, as \<^verbatim>\<open>get_dataframe\<close> calls it.\<close>

definition load_or_create_dataset :: "registry \<Rightarrow> key \<Rightarrow> state \<Rightarrow> error + (val \<times> state)" where
  "load_or_create_dataset R table_name s =
     (if dict_contains (existing_table_status s) table_name
      then Inl (ValueError (''table '' @ table_name @ '' already loaded''))
      else case map_of (LOADABLE_TABLES R) table_name of
        None \<Rightarrow> Inl (ValueError (''table '' @ table_name @ '' has no loading function''))
      | Some load \<Rightarrow>
         (case load (context_dict s) of
            Inl e \<Rightarrow> Inl e
          | Inr (t, c) \<Rightarrow>
             (if t \<noteq> PyNone
              then (case State_add_table R table_name t None (s\<lparr>context_dict := c\<rparr>) of
                      Inl e \<Rightarrow> Inl e
                    | Inr s' \<Rightarrow> Inr (t, s'))
              else Inr (t, s\<lparr>context_dict := c\<rparr>))))"

text \<open>\<^verbatim>\<open>State.get_dataframe(tablename)\<close> with \<^verbatim>\<open>columns=None\<close>; the copy it returns is the
  same value.\<close>

definition State_get_dataframe :: "registry \<Rightarrow> key \<Rightarrow> state \<Rightarrow> error + (dataframe \<times> state)" where
  "State_get_dataframe R tablename s =
     (let t = dict_get (context_dict s) tablename PyNone
      in case (if t = PyNone then load_or_create_dataset R tablename s else Inr (t, s)) of
           Inl e \<Rightarrow> Inl e
         | Inr (t, s) \<Rightarrow>
            (if t = PyNone then Inl (KeyError tablename)
             else case t of
               DataFrame df \<Rightarrow> Inr (df, s)
             | _ \<Rightarrow> Inl (TypeError (''cannot convert '' @ tablename @ '' to DataFrame''))))"

definition State_extend_table ::
  "registry \<Rightarrow> key \<Rightarrow> dataframe \<Rightarrow> int \<Rightarrow> state \<Rightarrow> error + (dataframe \<times> state)"
where
  "State_extend_table R table_name df axis s =
     (if axis \<notin> {0, 1} then Inl AssertionError
      else case
        (if State_is_table s table_name
         then (case State_get_dataframe R table_name s of
                 Inl e \<Rightarrow> Inl e
               | Inr (table_df, s) \<Rightarrow>
                  (if axis = 0
                   then (if length (index_intersection (index table_df) (index df)) \<noteq> 0
                         then Inl AssertionError
                         else
                          (let missing_df_str_columns =
                                 filter (\<lambda>c. c \<notin> set (column_names df)
                                              \<and> column_dtype table_df c = Some ObjectDtype)
                                   (column_names table_df);
                               df = pd_concat_rows table_df df;
                               df = fold (\<lambda>c df. fillna_column c [] df) missing_df_str_columns df
                           in Inr (df, s)))
                   else (if index table_df \<noteq> index df
                         then Inl AssertionError
                         else
                          (let new_df_columns =
                                 filter (\<lambda>c. c \<notin> set (column_names table_df)) (column_names df);
                               df = select_columns df new_df_columns;
                               df = pd_concat_columns table_df df
                           in Inr (df, s)))))
         else Inr (df, s)) of
          Inl e \<Rightarrow> Inl e
        | Inr (df, s) \<Rightarrow>
           (case State_add_table R table_name (DataFrame df) None s of
              Inl e \<Rightarrow> Inl e
            | Inr s' \<Rightarrow> Inr (df, s')))"

subsection \<open>\<^verbatim>\<open>State.get_table\<close>\<close>

text \<open>A name between single quotes, as \<^verbatim>\<open>'%s'\<close> formats it and as \<^verbatim>\<open>{name!r}\<close> does for a
  string without quotes or characters to escape.\<close>

definition quoted :: "string \<Rightarrow> string" where
  "quoted x = [CHR 0x27] @ x @ [CHR 0x27]"

text \<open>The generator \<^verbatim>\<open>next((x for x in checkpoints if x["checkpoint_name"] == name), None)\<close>:
  the first record of the log with that name; the subscript raises on a record that has
  no name.\<close>

fun find_checkpoint :: "(string, string) dict list \<Rightarrow> string \<Rightarrow> error + (string, string) dict option" where
  "find_checkpoint [] name = Inr None"
| "find_checkpoint (x # xs) name =
     (case map_of x ''checkpoint_name'' of
        None \<Rightarrow> Inl (KeyError ''checkpoint_name'')
      | Some n \<Rightarrow> (if n = name then Inr (Some x) else find_checkpoint xs name))"

text \<open>Modelled from the spec: \<^verbatim>\<open>Checkpoints._read_df\<close> of \<^verbatim>\<open>core/workflow/checkpoint.py\<close>
  is not among the sources.  The store maps the pair that \<^verbatim>\<open>pipeline_table_key\<close> renders
  as \<^verbatim>\<open>{table}/{checkpoint}\<close> to the stored snapshot.\<close>

definition read_df :: "state \<Rightarrow> key \<Rightarrow> string \<Rightarrow> error + val" where
  "read_df s table_name checkpoint_name =
     (case map_of (pipeline_store s) (table_name, checkpoint_name) of
        Some df \<Rightarrow> Inr (DataFrame df)
      | None \<Rightarrow> Inl (KeyError (table_name @ ''/'' @ checkpoint_name)))"

definition State_get_table :: "key \<Rightarrow> string option \<Rightarrow> state \<Rightarrow> error + val" where
  "State_get_table table_name checkpoint_name s =
     (if \<not> dict_contains (last_checkpoint s) table_name \<and> State_is_table s table_name
      then (case checkpoint_name of
              Some cn \<Rightarrow> Inl (RuntimeError
                (''get_table: checkpoint_name ('' @ quoted cn
                   @ '') not supported for non-checkpointed table '' @ quoted table_name))
            | None \<Rightarrow> Inr (dict_get (context_dict s) table_name PyNone))
      else case checkpoint_name of
        None \<Rightarrow>
          (if \<not> dict_contains (last_checkpoint s) table_name
           then Inl (RuntimeError (''table '' @ quoted table_name @ '' never checkpointed.''))
           else if dict_get (last_checkpoint s) table_name [] = []
           then Inl (RuntimeError (''table '' @ quoted table_name @ '' was dropped.''))
           else Inr (dict_get (context_dict s) table_name PyNone))
      | Some cn \<Rightarrow>
          (case find_checkpoint (checkpoints s) cn of
             Inl e \<Rightarrow> Inl e
           | Inr None \<Rightarrow> Inl (RuntimeError (''checkpoint '' @ quoted cn @ '' not in checkpoints.''))
           | Inr (Some checkpoint) \<Rightarrow>
              (let last_checkpoint_name = dict_get checkpoint table_name []
               in if last_checkpoint_name = []
                  then Inl (RuntimeError
                    (''table '' @ quoted table_name @ '' not in checkpoint '' @ quoted cn @ ''.''))
                  else if map_of (last_checkpoint s) table_name = Some last_checkpoint_name
                  then Inr (dict_get (context_dict s) table_name PyNone)
                  else read_df s table_name last_checkpoint_name)))"

subsection \<open>Adding a checkpoint\<close>





text \<open>The frame that \<^verbatim>\<open>extend_table\<close> builds for axis 0: the concatenation, with the
  string columns that the new rows lack filled.\<close>

definition extended_rows :: "dataframe \<Rightarrow> dataframe \<Rightarrow> dataframe" where
  "extended_rows t df =
     fold (\<lambda>c df. fillna_column c [] df)
       (filter (\<lambda>c. c \<notin> set (column_names df) \<and> column_dtype t c = Some ObjectDtype)
          (column_names t))
       (pd_concat_rows t df)"

section \<open>Tour origin and destination choice (\<^verbatim>\<open>abm/models/util/tour_od.py\<close>)\<close>

subsection \<open>\<^verbatim>\<open>run_tour_od\<close>\<close>

record tour =
  tour_id :: int
  tour_segment :: string
  tour_person_id :: int

record person =
  person_id :: int
  is_university :: bool
  demographic_segment :: int

type_synonym chooser = "tour \<times> person"

text \<open>\<^verbatim>\<open>pd.merge(choosers, persons, left_on="person_id", right_index=True)\<close>: an inner
  join that keeps the order of the tours.\<close>

definition merge_persons :: "tour list \<Rightarrow> person list \<Rightarrow> chooser list" where
  "merge_persons tours persons =
     concat (map (\<lambda>t. map (\<lambda>p. (t, p))
                         (filter (\<lambda>p. person_id p = tour_person_id t) persons)) tours)"

text \<open>What \<^verbatim>\<open>run_tour_od\<close> reads from \<^verbatim>\<open>model_settings\<close> and from its arguments.  The
  estimator, when there is one, is represented by its flag
  \<^verbatim>\<open>want_unsampled_alternatives\<close>.\<close>

record od_settings =
  SEGMENTS :: "string list"
  ORIG_FILTER :: string
  want_sample_table :: bool
  estimator :: "bool option"

text \<open>The steps that \<^verbatim>\<open>run_tour_od\<close> calls for one segment.  They run the sampling and
  simulation machinery of the core package, which is not among the sources, so they are
  parameters here: each returns its table or raises.  \<open>'z\<close> is a table of size terms,
  \<open>'r\<close> a row of the sample table, \<open>'c\<close> a row of the choices table.\<close>

record ('z, 'r, 'c) od_steps =
  assign_columns :: "(chooser list \<Rightarrow> error + chooser list) option"
  dest_size_terms_df :: "string \<Rightarrow> error + 'z"
  run_od_sample :: "string \<Rightarrow> chooser list \<Rightarrow> 'z \<Rightarrow> error + 'r list"
  map_maz_to_ext_maz :: "'r list \<Rightarrow> error + 'r list"
  run_od_logsums :: "string \<Rightarrow> chooser list \<Rightarrow> 'r list \<Rightarrow> error + 'r list"
  run_od_simulate :: "string \<Rightarrow> chooser list \<Rightarrow> 'r list \<Rightarrow> 'z \<Rightarrow> error + 'c list"
  set_index :: "'r list \<Rightarrow> 'r list"

text \<open>The body of the loop for a segment with choosers, from \<^verbatim>\<open>run_od_sample\<close> on: the
  choices of the segment and its sample table.\<close>

definition run_segment ::
  "('z, 'r, 'c) od_steps \<Rightarrow> od_settings \<Rightarrow> string \<Rightarrow> chooser list \<Rightarrow> 'z
     \<Rightarrow> error + ('c list \<times> 'r list)"
where
  "run_segment steps settings segment_name choosers size_terms =
     (case run_od_sample steps segment_name choosers size_terms of
        Inl e \<Rightarrow> Inl e
      | Inr od_sample_df \<Rightarrow>
         (case (if ORIG_FILTER settings = ''original_MAZ > 0'' then Inr od_sample_df
                else if ORIG_FILTER settings = ''external_TAZ > 0''
                then map_maz_to_ext_maz steps od_sample_df
                else Inl (ValueError
                  (''Not sure how you identified tour origins but you probably need ''
                     @ ''to choose a different ORIG_FILTER setting''))) of
            Inl e \<Rightarrow> Inl e
          | Inr od_sample_df \<Rightarrow>
             (case run_od_logsums steps segment_name choosers od_sample_df of
                Inl e \<Rightarrow> Inl e
              | Inr od_sample_df \<Rightarrow>
                 (case run_od_simulate steps segment_name choosers od_sample_df size_terms of
                    Inl e \<Rightarrow> Inl e
                  | Inr choices \<Rightarrow>
                     (if estimator settings = Some False then Inl AssertionError
                      else Inr (choices, od_sample_df))))))"

text \<open>The loop over the segments, with the two lists it appends to.\<close>

fun segment_loop ::
  "('z, 'r, 'c) od_steps \<Rightarrow> od_settings \<Rightarrow> tour list \<Rightarrow> person list \<Rightarrow> string list
     \<Rightarrow> 'c list list \<times> 'r list list \<Rightarrow> error + ('c list list \<times> 'r list list)"
where
  "segment_loop steps settings tours persons [] (choices_list, sample_list) =
     Inr (choices_list, sample_list)"
| "segment_loop steps settings tours persons (segment_name # rest) (choices_list, sample_list) =
     (let choosers = merge_persons (filter (\<lambda>t. tour_segment t = segment_name) tours) persons
      in case (case assign_columns steps of None \<Rightarrow> Inr choosers | Some f \<Rightarrow> f choosers) of
           Inl e \<Rightarrow> Inl e
         | Inr choosers \<Rightarrow>
            (case dest_size_terms_df steps segment_name of
               Inl e \<Rightarrow> Inl e
             | Inr segment_destination_size_terms \<Rightarrow>
                (if length choosers = 0
                 then segment_loop steps settings tours persons rest (choices_list, sample_list)
                 else
                  (case run_segment steps settings segment_name choosers
                          segment_destination_size_terms of
                     Inl e \<Rightarrow> Inl e
                   | Inr (choices, od_sample_df) \<Rightarrow>
                      segment_loop steps settings tours persons rest
                        (choices_list @ [choices],
                         if want_sample_table settings
                         then sample_list @ [set_index steps od_sample_df]
                         else sample_list)))))"

text \<open>\<^verbatim>\<open>run_tour_od\<close>.  The local \<^verbatim>\<open>choices_df\<close> is assigned only when \<^verbatim>\<open>choices_list\<close> is
  not empty; reading it unassigned in the \<^verbatim>\<open>return\<close> raises \<^verbatim>\<open>UnboundLocalError\<close>.\<close>

definition run_tour_od ::
  "('z, 'r, 'c) od_steps \<Rightarrow> od_settings \<Rightarrow> tour list \<Rightarrow> person list
     \<Rightarrow> error + ('c list \<times> 'r list option)"
where
  "run_tour_od steps settings tours persons =
     (let tours = sort_key tour_id tours
      in case segment_loop steps settings tours persons (SEGMENTS settings) ([], []) of
           Inl e \<Rightarrow> Inl e
         | Inr (choices_list, sample_list) \<Rightarrow>
            (let choices_df = (if length choices_list > 0 then Some (concat choices_list)
                               else None);
                 save_sample_df = (if length sample_list > 0 then Some (concat sample_list)
                                   else None)
             in case choices_df of
                  None \<Rightarrow> Inl (UnboundLocalError ''choices_df'')
                | Some choices_df \<Rightarrow> Inr (choices_df, save_sample_df)))"

subsection \<open>numpy operations on flat arrays\<close>

text \<open>\<^verbatim>\<open>a.cumsum()\<close>.\<close>

fun cumsum_from :: "'a::monoid_add \<Rightarrow> 'a list \<Rightarrow> 'a list" where
  "cumsum_from acc [] = []"
| "cumsum_from acc (x # xs) = (acc + x) # cumsum_from (acc + x) xs"

definition np_cumsum :: "'a::monoid_add list \<Rightarrow> 'a list" where
  "np_cumsum xs = cumsum_from 0 xs"

text \<open>\<^verbatim>\<open>np.repeat(a, repeats)\<close> with one count for each element.\<close>

definition np_repeat :: "'a list \<Rightarrow> nat list \<Rightarrow> 'a list" where
  "np_repeat xs repeats = concat (map2 (\<lambda>x n. replicate n x) xs repeats)"

text \<open>\<^verbatim>\<open>np.insert(a, obj, value)\<close> for a list \<^verbatim>\<open>obj\<close> of indices into the original array, none
  greater than its length: as many copies of the value as \<^verbatim>\<open>obj\<close> has the index \<open>p\<close> go in
  front of the element at \<open>p\<close> (at the end for \<open>p\<close> the length).\<close>

fun insert_from :: "nat \<Rightarrow> 'a list \<Rightarrow> nat list \<Rightarrow> 'a \<Rightarrow> 'a list" where
  "insert_from p [] obj v = replicate (count_list obj p) v"
| "insert_from p (x # xs) obj v = replicate (count_list obj p) v @ x # insert_from (Suc p) xs obj v"

definition np_insert :: "'a list \<Rightarrow> nat list \<Rightarrow> 'a \<Rightarrow> 'a list" where
  "np_insert xs obj v = insert_from 0 xs obj v"

text \<open>\<^verbatim>\<open>a.reshape(-1, m)\<close>: the rows of width \<open>m\<close>.\<close>

definition reshape :: "'a list \<Rightarrow> nat \<Rightarrow> 'a list list" where
  "reshape xs m = map (\<lambda>i. take m (drop (i * m) xs)) [0..<length xs div m]"

text \<open>\<^verbatim>\<open>np.argmax\<close> of a row of booleans: the index of the first \<^verbatim>\<open>True\<close>, and 0 when there is
  none.\<close>

definition np_argmax :: "bool list \<Rightarrow> nat" where
  "np_argmax bs = (if True \<in> set bs then length (takeWhile Not bs) else 0)"

subsection \<open>\<^verbatim>\<open>choose_MAZ_for_TAZ\<close>\<close>

text \<open>A row of \<^verbatim>\<open>taz_sample\<close>: its index value (the chooser), the sampled TAZ, its
  probability and pick count, and the values of the additional key columns (none, or the
  one column \<^verbatim>\<open>addtl_col_for_unique_key\<close>).\<close>

record taz_draw =
  chooser :: int
  dest_TAZ :: int
  TAZ_prob :: real
  pick_count :: nat
  addtl :: "int list"

text \<open>A row of \<^verbatim>\<open>MAZ_size_terms\<close>.\<close>

record maz_size_term =
  zone_id :: int
  parent_TAZ :: int
  size_term :: real

text \<open>The rows of \<^verbatim>\<open>maz_sizes\<close> for one row of \<^verbatim>\<open>taz_choices\<close>: the left merge on the TAZ
  gives the zone and size term of every MAZ of that TAZ, in the order of
  \<^verbatim>\<open>MAZ_size_terms\<close>, and a single row without zone for a TAZ that has none (pandas puts
  NaN in both columns; the size term is 0 here, the reals have no NaN).\<close>

definition maz_candidates :: "maz_size_term list \<Rightarrow> taz_draw \<Rightarrow> (int option \<times> real) list" where
  "maz_candidates MAZ_size_terms r =
     (let ms = filter (\<lambda>m. parent_TAZ m = dest_TAZ r) MAZ_size_terms
      in if ms = [] then [(None, 0)] else map (\<lambda>m. (Some (zone_id m), size_term m)) ms)"

text \<open>From \<^verbatim>\<open>maz_counts\<close> to \<^verbatim>\<open>maz_probs\<close>: the size terms of all candidates in one flat
  array, zero filler inserted behind each group up to the common width, the rows divided
  by their sums.\<close>

definition padded_maz_sizes :: "real list \<Rightarrow> nat list \<Rightarrow> real list list" where
  "padded_maz_sizes size_terms maz_counts =
     (let max_maz_count = Max (set maz_counts);
          last_row_offsets = np_cumsum maz_counts;
          inserts = np_repeat last_row_offsets (map (\<lambda>c. max_maz_count - c) maz_counts)
      in reshape (np_insert size_terms inserts 0) max_maz_count)"

definition maz_probs_of :: "real list list \<Rightarrow> real list list" where
  "maz_probs_of padded = map (\<lambda>row. map (\<lambda>x. x / sum_list row) row) padded"

text \<open>\<^verbatim>\<open>np.argmax((maz_probs.cumsum(axis=1) - rands) > 0.0, axis=1)\<close>.\<close>

definition choose_positions :: "real list list \<Rightarrow> real list \<Rightarrow> nat list" where
  "choose_positions maz_probs rands =
     map2 (\<lambda>row rand. np_argmax (map (\<lambda>c. c - rand > 0) (np_cumsum row))) maz_probs rands"

text \<open>The insertion points behind the groups that start at offset \<open>p\<close>.\<close>

definition inserts_behind :: "nat \<Rightarrow> nat \<Rightarrow> nat list \<Rightarrow> nat list" where
  "inserts_behind m p counts = np_repeat (cumsum_from p counts) (map (\<lambda>c. m - c) counts)"

definition pad_to :: "nat \<Rightarrow> 'a::zero list \<Rightarrow> 'a list" where
  "pad_to m g = g @ replicate (m - length g) 0"





section \<open>Example states\<close>


definition empty_state :: state where
  "empty_state = \<lparr>context_dict = [], existing_table_status = [], last_checkpoint = [],
     checkpoints = [], pipeline_store = []\<rparr>"

definition no_registry :: registry where
  "no_registry = \<lparr>LOADABLE_TABLES = [], LOADABLE_OBJECTS = [], PREDICATES = [], TEMP_NAMES = []\<rparr>"

definition output_filesystem :: state where
  "output_filesystem = empty_state\<lparr>context_dict :=
     [(''filesystem'', FileSystem [(''output_dir'', PyStr ''output'')])]\<rparr>"

definition land_use_registry :: registry where
  "land_use_registry = \<lparr>LOADABLE_TABLES = [(''land_use'', \<lambda>c. Inr (PyInt 5, c))],
     LOADABLE_OBJECTS = [(''output_dir'', \<lambda>c. Inr (PyStr ''elsewhere'', c))],
     PREDICATES = [], TEMP_NAMES = []\<rparr>"

definition checkpointed_state :: state where
  "checkpointed_state = empty_state\<lparr>
     context_dict := [(''households'', PyInt 1)],
     existing_table_status := [(''households'', False)],
     last_checkpoint := [(''households'', ''init''), (''checkpoint_name'', ''init'')],
     checkpoints := [[(''households'', ''init''), (''checkpoint_name'', ''init'')]]\<rparr>"

definition persons_table :: dataframe where
  "persons_table = \<lparr>index = [1, 2],
     columns = [(''name'', ObjectDtype, [Str ''ann'', Str ''bob'']),
                (''age'', NumericDtype, [Num 30, Num 41])]\<rparr>"

definition new_persons :: dataframe where
  "new_persons = \<lparr>index = [3], columns = [(''age'', NumericDtype, [Num 25])]\<rparr>"

definition persons_state :: state where
  "persons_state = empty_state\<lparr>context_dict := [(''persons'', DataFrame persons_table)],
     existing_table_status := [(''persons'', False)]\<rparr>"





definition work_settings :: od_settings where
  "work_settings = \<lparr>SEGMENTS = [''work'', ''school''], ORIG_FILTER = ''original_MAZ > 0'',
     want_sample_table = False, estimator = None\<rparr>"

definition constant_steps :: "(unit, int, int) od_steps" where
  "constant_steps = \<lparr>assign_columns = None,
     dest_size_terms_df = (\<lambda>segment. Inr ()),
     run_od_sample = (\<lambda>segment choosers z. Inr (map (\<lambda>(t, p). tour_id t) choosers)),
     map_maz_to_ext_maz = Inr,
     run_od_logsums = (\<lambda>segment choosers sample. Inr sample),
     run_od_simulate = (\<lambda>segment choosers sample z. Inr sample),
     set_index = (\<lambda>sample. sample)\<rparr>"

definition school_tours :: "tour list" where
  "school_tours = [\<lparr>tour_id = 7, tour_segment = ''school'', tour_person_id = 1\<rparr>,
                   \<lparr>tour_id = 3, tour_segment = ''school'', tour_person_id = 1\<rparr>]"

definition one_person :: "person list" where
  "one_person = [\<lparr>person_id = 1, is_university = False, demographic_segment = 0\<rparr>]"


section \<open>Invalidation cascade of \<^verbatim>\<open>State.set\<close>\<close>

lemma length_delete_less:
  assumes "k \<in> fst ` set c"
  shows "length (AList.delete k c) < length c"
proof -
  from assms obtain v where "(k, v) \<in> set c" by auto
  then show ?thesis
    unfolding AList.delete_eq by (intro length_filter_less [where x = "(k, v)"]) simp_all
qed

lemma dict_contains_iff: "dict_contains d k \<longleftrightarrow> k \<in> fst ` set d"
  by (simp add: dict_contains_def map_of_eq_None_iff)

lemma delete_as_restrict: "AList.delete k c = AList.restrict (- {k}) c"
  by (induct c) (auto simp: AList.restrict_eq)

lemma drop_total:
  "dict_contains (context_dict s) k \<Longrightarrow> \<exists>s'. State_drop R k s = Inr s'"
  "\<exists>s'. drop_predicated R ks s = Inr s'"
proof (induction R k s and R ks s rule: State_drop_drop_predicated.induct)
  case (1 R k s)
  then show ?case by simp
next
  case (2 R s)
  show ?case by simp
next
  case (3 R i rest s)
  show ?case
  proof (cases "dict_contains (context_dict s) i")
    case True
    from 3(1) [OF True True] obtain s1 where s1: "State_drop R i s = Inr s1" by blast
    from 3(2) [OF True s1] obtain s' where "drop_predicated R rest s1 = Inr s'" by blast
    with True s1 show ?thesis by simp
  next
    case False
    with 3(3) show ?thesis by simp
  qed
qed

lemma drop_frame:
  "State_drop R k s = Inr s' \<Longrightarrow>
     \<exists>A. s' = s\<lparr>context_dict := AList.restrict A (context_dict s)\<rparr>"
  "drop_predicated R ks s = Inr s' \<Longrightarrow>
     \<exists>A. s' = s\<lparr>context_dict := AList.restrict A (context_dict s)\<rparr>"
proof (induction R k s and R ks s arbitrary: s' and s' rule: State_drop_drop_predicated.induct)
  case (1 R k s)
  show ?case
  proof (cases "dict_contains (context_dict s) k")
    case True
    with 1(2) have "drop_predicated R (dict_get (PREDICATES R) k [])
        (s\<lparr>context_dict := AList.delete k (context_dict s)\<rparr>) = Inr s'" by simp
    from 1(1) [OF True this] obtain A
      where "s' = s\<lparr>context_dict := AList.restrict A (AList.delete k (context_dict s))\<rparr>"
      by auto
    then have "s' = s\<lparr>context_dict := AList.restrict (A \<inter> - {k}) (context_dict s)\<rparr>"
      by (simp add: delete_as_restrict)
    then show ?thesis by blast
  next
    case False
    with 1(2) show ?thesis by simp
  qed
next
  case (2 R s)
  then have "s' = s\<lparr>context_dict := AList.restrict UNIV (context_dict s)\<rparr>"
    by (simp add: AList.restrict_eq)
  then show ?case by blast
next
  case (3 R i rest s)
  show ?case
  proof (cases "dict_contains (context_dict s) i")
    case True
    with 3(4) obtain s1
      where s1: "State_drop R i s = Inr s1" "drop_predicated R rest s1 = Inr s'"
      by (auto split: sum.splits)
    from 3(1) [OF True s1(1)] obtain A
      where A: "s1 = s\<lparr>context_dict := AList.restrict A (context_dict s)\<rparr>" by blast
    from 3(2) [OF True s1] obtain B
      where B: "s' = s1\<lparr>context_dict := AList.restrict B (context_dict s1)\<rparr>" by blast
    from A B have "s' = s\<lparr>context_dict := AList.restrict (B \<inter> A) (context_dict s)\<rparr>"
      by simp
    then show ?thesis by blast
  next
    case False
    with 3(4) have "drop_predicated R rest s = Inr s'" by simp
    from 3(3) [OF False this] show ?thesis .
  qed
qed



lemma drop_value_kept:
  assumes "drop_predicated R ks s = Inr s'" and "map_of (context_dict s') j = Some x"
  shows "map_of (context_dict s) j = Some x"
proof -
  from drop_frame(2) [OF assms(1)] obtain A
    where "context_dict s' = AList.restrict A (context_dict s)" by auto
  with assms(2) show ?thesis by (cases "j \<in> A") simp_all
qed


lemma delete_contains: "dict_contains (AList.delete k c) j \<longleftrightarrow> j \<noteq> k \<and> dict_contains c j"
  by (simp add: dict_contains_def delete_conv')



lemma drop_reach:
  "State_drop R k s = Inr s' \<Longrightarrow> State_contains s j \<Longrightarrow> \<not> State_contains s' j \<Longrightarrow>
     (k, j) \<in> (predicated_on R)\<^sup>*"
  "drop_predicated R ks s = Inr s' \<Longrightarrow> State_contains s j \<Longrightarrow> \<not> State_contains s' j \<Longrightarrow>
     \<exists>w \<in> set ks. (w, j) \<in> (predicated_on R)\<^sup>*"
proof (induction R k s and R ks s arbitrary: s' and s' rule: State_drop_drop_predicated.induct)
  case (1 R k s)
  show ?case
  proof (cases "dict_contains (context_dict s) k")
    case True
    let ?s1 = "s\<lparr>context_dict := AList.delete k (context_dict s)\<rparr>"
    from True 1(2) have run: "drop_predicated R (dict_get (PREDICATES R) k []) ?s1 = Inr s'"
      by simp
    show ?thesis
    proof (cases "j = k")
      case True
      then show ?thesis by simp
    next
      case False
      with 1(3) have "State_contains ?s1 j"
        by (simp add: State_contains_def delete_contains)
      from 1(1) [OF True run this 1(4)] obtain w
        where w: "w \<in> set (dict_get (PREDICATES R) k [])" "(w, j) \<in> (predicated_on R)\<^sup>*"
        by blast
      from w(1) have "(k, w) \<in> predicated_on R" by (simp add: predicated_on_def)
      from this w(2) show ?thesis by (rule converse_rtrancl_into_rtrancl)
    qed
  next
    case False
    with 1(2) show ?thesis by simp
  qed
next
  case (2 R s)
  then show ?case by simp
next
  case (3 R i rest s)
  show ?case
  proof (cases "dict_contains (context_dict s) i")
    case True
    with 3(4) obtain s1
      where s1: "State_drop R i s = Inr s1" "drop_predicated R rest s1 = Inr s'"
      by (auto split: sum.splits)
    show ?thesis
    proof (cases "State_contains s1 j")
      case True
      from 3(2) [OF \<open>dict_contains (context_dict s) i\<close> s1 True 3(6)] show ?thesis by auto
    next
      case False
      from 3(1) [OF True s1(1) 3(5) False] show ?thesis by auto
    qed
  next
    case False
    with 3(4) have run: "drop_predicated R rest s = Inr s'" by simp
    from 3(3) [OF False run 3(5) 3(6)] show ?thesis by auto
  qed
qed

lemma update_contains: "dict_contains (AList.update k v c) j \<longleftrightarrow> j = k \<or> dict_contains c j"
  by (simp add: dict_contains_def update_conv')








section \<open>\<^verbatim>\<open>State.get\<close>: missing keys, loaders and stored \<^verbatim>\<open>None\<close>\<close>

lemma not_contains_get: "\<not> State_contains s k \<Longrightarrow> dict_get (context_dict s) k PyNone = PyNone"
  by (simp add: State_contains_def dict_contains_def dict_get_def)

lemma not_contains_map_of: "\<not> State_contains s k \<Longrightarrow> map_of (context_dict s) k = None"
  by (simp add: State_contains_def dict_contains_def)

lemma doesnt_exist_names_key: "sublist k (doesnt_exist k caller)"
  unfolding sublist_def doesnt_exist_def by (metis append.assoc)

lemma must_have_a_value_names_key: "sublist k (must_have_a_value k caller)"
  unfolding sublist_def must_have_a_value_def by (metis append.assoc)

text \<open>Claim C8, as the code has it.  For a key that is not in the context, has no
  registered loader and is not the name of an attribute of the state's filesystem,
  \<^verbatim>\<open>State.get\<close> without a default never returns: \<^verbatim>\<open>assert_key_has_value\<close> raises pypyr's
  \<^verbatim>\<open>KeyNotInContextError\<close> (a \<^verbatim>\<open>KeyError\<close>), whose message names the key (for the empty
  key its \<^verbatim>\<open>assert\<close> fails first).\<close>

theorem State_get_missing_key:
  assumes "\<not> State_contains s k"
    and "registered_loader R k = None"
    and "filesystem_attr s k = PyNone"
  shows "State_get fmt R k (PyStr NO_DEFAULT) s =
      Inl (if k = [] then AssertionError else KeyNotInContextError (doesnt_exist k ''State''))
    \<and> sublist k (doesnt_exist k ''State'')"
proof -
  from assms(2) have l: "map_of (LOADABLE_TABLES R) k = None" "map_of (LOADABLE_OBJECTS R) k = None"
    by (auto simp: registered_loader_def split: option.splits)
  from assms(3) have f: "(case StateAttr_get ''filesystem'' s of
        Inl _ \<Rightarrow> PyNone | Inr fs \<Rightarrow> py_getattr fs k PyNone) = PyNone"
    by (simp add: filesystem_attr_def)
  have "State_get fmt R k (PyStr NO_DEFAULT) s =
      Inl (if k = [] then AssertionError else KeyNotInContextError (doesnt_exist k ''State''))"
    unfolding State_get_def
    by (simp add: not_contains_get [OF assms(1)] not_contains_map_of [OF assms(1)] l f
        is_frame_def assert_key_has_value_def)
  then show ?thesis by (simp add: doesnt_exist_names_key)
qed

theorem State_get_missing_key_witness:
  "State_get (\<lambda>c v. Inr v) no_registry ''tours'' (PyStr NO_DEFAULT) output_filesystem =
     Inl (KeyNotInContextError ''context['tours'] doesn't exist. It must exist for State.'')"
proof -
  have "\<not> State_contains output_filesystem ''tours''"
    by (simp add: State_contains_def dict_contains_def output_filesystem_def empty_state_def)
  moreover have "registered_loader no_registry ''tours'' = None"
    by (simp add: registered_loader_def no_registry_def)
  moreover have "filesystem_attr output_filesystem ''tours'' = PyNone"
    by (simp add: filesystem_attr_def StateAttr_get_def py_getattr_def dict_get_def
        output_filesystem_def empty_state_def)
  ultimately show ?thesis
    using State_get_missing_key [of output_filesystem "''tours''" no_registry "\<lambda>c v. Inr v"]
    by (simp add: doesnt_exist_def)
qed

text \<open>Claim C8 as stated fails: a key that is absent from the context and has no loader
  is still answered, without an error, when the filesystem object has an attribute of
  that name.\<close>

theorem State_get_filesystem_counterexample:
  "\<not> State_contains output_filesystem ''output_dir''
   \<and> registered_loader no_registry ''output_dir'' = None
   \<and> State_get (\<lambda>c v. Inr v) no_registry ''output_dir'' (PyStr NO_DEFAULT) output_filesystem
       = Inr (PyStr ''output'', output_filesystem)"
  by (simp add: State_contains_def dict_contains_def output_filesystem_def empty_state_def
      registered_loader_def no_registry_def State_get_def StateAttr_get_def py_getattr_def
      dict_get_def is_frame_def Let_def)


lemma same_context: "s\<lparr>context_dict := context_dict s\<rparr> = (s::state)"
  by simp

lemma State_set_value:
  assumes "State_set R K v s = Inr s'" and "map_of (context_dict s') K = Some x"
  shows "x = v"
  using drop_value_kept [OF assms(1) [unfolded State_set_def] assms(2)]
  by (simp add: update_conv')

lemma State_set_keeps_key:
  assumes "State_set R K v s = Inr s'" and "(K, K) \<notin> (predicated_on R)\<^sup>+"
  shows "map_of (context_dict s') K = Some v"
proof -
  let ?s1 = "s\<lparr>context_dict := AList.update K v (context_dict s)\<rparr>"
  from assms(1) have run: "drop_predicated R (dict_get (PREDICATES R) K []) ?s1 = Inr s'"
    by (simp add: State_set_def)
  have "State_contains s' K"
  proof (rule ccontr)
    assume "\<not> State_contains s' K"
    moreover have "State_contains ?s1 K" by (simp add: State_contains_def update_contains)
    ultimately obtain w where "w \<in> set (dict_get (PREDICATES R) K [])"
      "(w, K) \<in> (predicated_on R)\<^sup>*"
      using drop_reach(2) [OF run] by blast
    moreover from this(1) have "(K, w) \<in> predicated_on R" by (simp add: predicated_on_def)
    ultimately have "(K, K) \<in> (predicated_on R)\<^sup>+" by (simp add: rtrancl_into_trancl2)
    with assms(2) show False by simp
  qed
  then obtain x where x: "map_of (context_dict s') K = Some x"
    by (auto simp: State_contains_def dict_contains_def)
  with State_set_value [OF assms(1) x] show ?thesis by simp
qed

text \<open>Claim C9, as the code has it.  For a key that is not in the context and is not the
  name of a filesystem attribute, \<^verbatim>\<open>State.get\<close> calls the registered loader (a table
  loader before an object loader) and returns its value, formatted by the context unless
  it is a table.  \<^verbatim>\<open>get\<close> writes nothing itself: the context afterwards is the one the
  loader left, so with a loader that leaves the context alone the state is unchanged and
  the key is still absent.  \<^verbatim>\<open>add_table\<close> stores the value through \<^verbatim>\<open>set\<close>.\<close>

theorem State_get_loader_not_cached:
  assumes "\<not> State_contains s k"
    and "filesystem_attr s k = PyNone"
    and "registered_loader R k = Some load"
    and "load (context_dict s) = Inr (v, c)"
    and "v \<noteq> PyNone"
  shows "State_get fmt R k dflt s =
      (if is_frame v then Inr (v, s\<lparr>context_dict := c\<rparr>)
       else case fmt c v of Inl e \<Rightarrow> Inl e | Inr r \<Rightarrow> Inr (r, s\<lparr>context_dict := c\<rparr>))
    \<and> (c = context_dict s \<longrightarrow>
         (\<forall>r s'. State_get fmt R k dflt s = Inr (r, s') \<longrightarrow> s' = s \<and> \<not> State_contains s' k))
    \<and> (\<forall>s'. State_add_table R k v salient s = Inr s' \<and> (k, k) \<notin> (predicated_on R)\<^sup>+ \<longrightarrow>
         map_of (context_dict s') k = Some v)"
proof -
  from assms(2) have f: "(case StateAttr_get ''filesystem'' s of
        Inl _ \<Rightarrow> PyNone | Inr fs \<Rightarrow> py_getattr fs k PyNone) = PyNone"
    by (simp add: filesystem_attr_def)
  from assms(3,4) have l: "(case map_of (LOADABLE_TABLES R) k of
        Some load \<Rightarrow> load (context_dict s)
      | None \<Rightarrow> (case map_of (LOADABLE_OBJECTS R) k of
                   Some load \<Rightarrow> load (context_dict s)
                 | None \<Rightarrow> Inr (PyNone, context_dict s))) = Inr (v, c)"
    by (auto simp: registered_loader_def split: option.splits)
  have eq: "State_get fmt R k dflt s =
      (if is_frame v then Inr (v, s\<lparr>context_dict := c\<rparr>)
       else case fmt c v of Inl e \<Rightarrow> Inl e | Inr r \<Rightarrow> Inr (r, s\<lparr>context_dict := c\<rparr>))"
    unfolding State_get_def
    by (simp add: not_contains_get [OF assms(1)] f l assms(5))
  have same: "s' = s \<and> \<not> State_contains s' k"
    if "c = context_dict s" "State_get fmt R k dflt s = Inr (r, s')" for r s'
    using that assms(1) unfolding eq by (auto split: if_splits sum.splits)
  have cached: "map_of (context_dict s') k = Some v"
    if "State_add_table R k v salient s = Inr s'" "(k, k) \<notin> (predicated_on R)\<^sup>+" for s'
    using that(1) State_set_keeps_key [OF _ that(2)]
    by (simp add: State_add_table_def Let_def split: if_splits)
  from eq same cached show ?thesis by blast
qed

theorem State_get_loader_not_cached_witness:
  "State_get (\<lambda>c v. Inr v) land_use_registry ''land_use'' (PyStr NO_DEFAULT) empty_state
     = Inr (PyInt 5, empty_state)
   \<and> \<not> State_contains empty_state ''land_use''
   \<and> State_add_table land_use_registry ''land_use'' (PyInt 5) None empty_state
     = Inr (empty_state\<lparr>context_dict := [(''land_use'', PyInt 5)],
         existing_table_status := [(''land_use'', True)]\<rparr>)"
proof -
  have 1: "\<not> State_contains empty_state ''land_use''"
    by (simp add: State_contains_def dict_contains_def empty_state_def)
  have 2: "filesystem_attr empty_state ''land_use'' = PyNone"
    by (simp add: filesystem_attr_def StateAttr_get_def empty_state_def)
  have 3: "registered_loader land_use_registry ''land_use'' = Some (\<lambda>c. Inr (PyInt 5, c))"
    by (simp add: registered_loader_def land_use_registry_def)
  have 4: "(\<lambda>c. Inr (PyInt 5, c)) (context_dict empty_state) = Inr (PyInt 5, context_dict empty_state)"
    by simp
  have 5: "State_add_table land_use_registry ''land_use'' (PyInt 5) None empty_state
     = Inr (empty_state\<lparr>context_dict := [(''land_use'', PyInt 5)],
         existing_table_status := [(''land_use'', True)]\<rparr>)"
    by (simp add: State_add_table_def State_set_def land_use_registry_def empty_state_def
        dict_get_def)
  from State_get_loader_not_cached [OF 1 2 3 4, of "\<lambda>c v. Inr v" "PyStr NO_DEFAULT"] 1 5
  show ?thesis by (simp add: is_frame_def)
qed

text \<open>Claim C9 as stated fails: the filesystem attribute of the same name comes before the
  loader, which is then not called.\<close>

theorem State_get_loader_shadowed_counterexample:
  "\<not> State_contains output_filesystem ''output_dir''
   \<and> registered_loader land_use_registry ''output_dir''
       = Some (\<lambda>c. Inr (PyStr ''elsewhere'', c))
   \<and> State_get (\<lambda>c v. Inr v) land_use_registry ''output_dir'' (PyStr NO_DEFAULT) output_filesystem
       = Inr (PyStr ''output'', output_filesystem)"
  by (simp add: State_contains_def dict_contains_def output_filesystem_def empty_state_def
      registered_loader_def land_use_registry_def State_get_def StateAttr_get_def py_getattr_def
      dict_get_def is_frame_def Let_def)

text \<open>Claim C10, as the code has it.  After \<^verbatim>\<open>set(K, None)\<close>, with no loader and no
  filesystem attribute for \<open>K\<close>: \<^verbatim>\<open>get(K, default)\<close> with a default other than the
  \<^verbatim>\<open>NO_DEFAULT\<close> string and other than a data frame returns the default as the context
  formats it; \<^verbatim>\<open>get(K)\<close> raises \<^verbatim>\<open>KeyInContextHasNoValueError\<close> naming \<open>K\<close> while \<open>K\<close> is
  still stored (\<^verbatim>\<open>KeyNotInContextError\<close> when the cascade of \<^verbatim>\<open>set\<close> dropped \<open>K\<close> itself);
  and whatever \<^verbatim>\<open>get\<close> returns is the formatted default, never the stored \<^verbatim>\<open>None\<close>.\<close>

theorem State_get_stored_None:
  assumes "State_set R K PyNone s = Inr s1"
    and "registered_loader R K = None"
    and "filesystem_attr s1 K = PyNone"
  shows "(dflt \<noteq> PyStr NO_DEFAULT \<and> \<not> is_frame dflt \<longrightarrow>
        State_get fmt R K dflt s1 =
          (case fmt (context_dict s1) dflt of Inl e \<Rightarrow> Inl e | Inr r \<Rightarrow> Inr (r, s1)))
    \<and> State_get fmt R K (PyStr NO_DEFAULT) s1 =
        Inl (if K = [] then AssertionError
             else if State_contains s1 K
               then KeyInContextHasNoValueError (must_have_a_value K ''State'')
               else KeyNotInContextError (doesnt_exist K ''State''))
    \<and> sublist K (must_have_a_value K ''State'') \<and> sublist K (doesnt_exist K ''State'')
    \<and> (\<forall>r s'. State_get fmt R K dflt s1 = Inr (r, s') \<longrightarrow>
          fmt (context_dict s1) dflt = Inr r \<and> s' = s1)"
proof -
  from assms(2) have l: "map_of (LOADABLE_TABLES R) K = None" "map_of (LOADABLE_OBJECTS R) K = None"
    by (auto simp: registered_loader_def split: option.splits)
  from assms(3) have f: "(case StateAttr_get ''filesystem'' s1 of
        Inl _ \<Rightarrow> PyNone | Inr fs \<Rightarrow> py_getattr fs K PyNone) = PyNone"
    by (simp add: filesystem_attr_def)
  have stored: "map_of (context_dict s1) K = None \<or> map_of (context_dict s1) K = Some PyNone"
    using State_set_value [OF assms(1)] by (cases "map_of (context_dict s1) K") auto
  then have g: "dict_get (context_dict s1) K PyNone = PyNone"
    by (auto simp: dict_get_def)
  have eq: "State_get fmt R K dflt s1 =
      (if is_frame dflt then Inl (ValueError ''The truth value of a DataFrame is ambiguous'')
       else if dflt \<noteq> PyStr NO_DEFAULT
         then (case fmt (context_dict s1) dflt of Inl e \<Rightarrow> Inl e | Inr r \<Rightarrow> Inr (r, s1))
         else (case assert_key_has_value (context_dict s1) K ''State'' of
                 Some e \<Rightarrow> Inl e | None \<Rightarrow> Inl (KeyError K)))" for dflt
    unfolding State_get_def
    by (simp add: g f l same_context split: option.splits sum.splits)
  have a: "assert_key_has_value (context_dict s1) K ''State'' =
      Some (if K = [] then AssertionError
             else if State_contains s1 K
               then KeyInContextHasNoValueError (must_have_a_value K ''State'')
               else KeyNotInContextError (doesnt_exist K ''State''))"
    using stored by (auto simp: assert_key_has_value_def State_contains_def dict_contains_def)
  have "State_get fmt R K (PyStr NO_DEFAULT) s1 =
        Inl (if K = [] then AssertionError
             else if State_contains s1 K
               then KeyInContextHasNoValueError (must_have_a_value K ''State'')
               else KeyNotInContextError (doesnt_exist K ''State''))"
    unfolding eq a by (simp add: is_frame_def)
  moreover have "\<forall>r s'. State_get fmt R K dflt s1 = Inr (r, s') \<longrightarrow>
          fmt (context_dict s1) dflt = Inr r \<and> s' = s1"
    unfolding eq by (auto split: if_splits sum.splits option.splits)
  ultimately show ?thesis
    using eq [of dflt] by (simp add: must_have_a_value_names_key doesnt_exist_names_key)
qed

theorem State_get_stored_None_witness:
  "State_set no_registry ''x'' PyNone empty_state
      = Inr (empty_state\<lparr>context_dict := [(''x'', PyNone)]\<rparr>)
   \<and> State_get (\<lambda>c v. Inr v) no_registry ''x'' (PyInt 3)
        (empty_state\<lparr>context_dict := [(''x'', PyNone)]\<rparr>)
      = Inr (PyInt 3, empty_state\<lparr>context_dict := [(''x'', PyNone)]\<rparr>)"
proof -
  let ?s1 = "empty_state\<lparr>context_dict := [(''x'', PyNone)]\<rparr>"
  have 1: "State_set no_registry ''x'' PyNone empty_state = Inr ?s1"
    by (simp add: State_set_def no_registry_def empty_state_def dict_get_def)
  have 2: "registered_loader no_registry ''x'' = None"
    by (simp add: registered_loader_def no_registry_def)
  have 3: "filesystem_attr ?s1 ''x'' = PyNone"
    by (simp add: filesystem_attr_def StateAttr_get_def empty_state_def)
  from State_get_stored_None [OF 1 2 3, of "PyInt 3" "\<lambda>c v. Inr v"] 1
  show ?thesis by (simp add: is_frame_def NO_DEFAULT_def)
qed

text \<open>Claim C10 as stated fails: a stored \<^verbatim>\<open>None\<close> and an absent key are told apart by
  the exception that \<^verbatim>\<open>get\<close> raises.\<close>

theorem State_get_stored_None_counterexample:
  "State_set no_registry ''x'' PyNone empty_state
      = Inr (empty_state\<lparr>context_dict := [(''x'', PyNone)]\<rparr>)
   \<and> State_get (\<lambda>c v. Inr v) no_registry ''x'' (PyStr NO_DEFAULT)
        (empty_state\<lparr>context_dict := [(''x'', PyNone)]\<rparr>)
      = Inl (KeyInContextHasNoValueError ''context['x'] must have a value for State.'')
   \<and> State_get (\<lambda>c v. Inr v) no_registry ''x'' (PyStr NO_DEFAULT) empty_state
      = Inl (KeyNotInContextError ''context['x'] doesn't exist. It must exist for State.'')"
  by (simp add: State_set_def no_registry_def empty_state_def dict_get_def State_get_def
      StateAttr_get_def is_frame_def Let_def assert_key_has_value_def must_have_a_value_def
      doesnt_exist_def)

section \<open>Errors of \<^verbatim>\<open>State.get_table\<close>\<close>

lemma find_checkpoint_None:
  assumes "\<forall>x \<in> set cps. map_of x ''checkpoint_name'' \<noteq> None"
    and "\<forall>x \<in> set cps. map_of x ''checkpoint_name'' \<noteq> Some name"
  shows "find_checkpoint cps name = Inr None"
  using assms by (induction cps) (auto split: option.splits)

lemma find_checkpoint_Some:
  assumes "find_checkpoint cps name = Inr (Some x)"
  shows "x \<in> set cps \<and> map_of x ''checkpoint_name'' = Some name"
  using assms by (induction cps) (auto split: option.splits if_splits)

lemma sublist_quoted: "sublist x (pre @ quoted x @ post)"
  unfolding sublist_def quoted_def by (metis append.assoc)

lemma State_get_table_error_cases:
  "(\<forall>x \<in> set (checkpoints s). map_of x ''checkpoint_name'' \<noteq> None) \<and>
   (\<forall>x \<in> set (checkpoints s). map_of x ''checkpoint_name'' \<noteq> Some cn) \<longrightarrow>
     (\<exists>m. State_get_table t (Some cn) s = Inl (RuntimeError m) \<and> sublist cn m \<and>
        (\<not> dict_contains (last_checkpoint s) t \<and> State_is_table s t \<longrightarrow> sublist t m) \<and>
        (dict_contains (last_checkpoint s) t \<or> \<not> State_is_table s t \<longrightarrow>
           m = ''checkpoint '' @ quoted cn @ '' not in checkpoints.''))"
  "find_checkpoint (checkpoints s) cn = Inr (Some cp) \<and> dict_get cp t [] = [] \<longrightarrow>
     (\<exists>m. State_get_table t (Some cn) s = Inl (RuntimeError m) \<and> sublist cn m \<and> sublist t m)"
proof -
  have first: "\<exists>m. State_get_table t (Some cn) s = Inl (RuntimeError m) \<and> sublist cn m \<and> sublist t m"
    if "\<not> dict_contains (last_checkpoint s) t \<and> State_is_table s t"
  proof -
    let ?m = "''get_table: checkpoint_name ('' @ quoted cn
                   @ '') not supported for non-checkpointed table '' @ quoted t"
    from that have "State_get_table t (Some cn) s = Inl (RuntimeError ?m)"
      by (simp add: State_get_table_def)
    moreover have "sublist cn ?m" by (rule sublist_quoted)
    moreover have "sublist t ?m"
      using sublist_quoted [of t "''get_table: checkpoint_name ('' @ quoted cn
                   @ '') not supported for non-checkpointed table ''" "[]"] by simp
    ultimately show ?thesis by blast
  qed
  show "(\<forall>x \<in> set (checkpoints s). map_of x ''checkpoint_name'' \<noteq> None) \<and>
   (\<forall>x \<in> set (checkpoints s). map_of x ''checkpoint_name'' \<noteq> Some cn) \<longrightarrow>
     (\<exists>m. State_get_table t (Some cn) s = Inl (RuntimeError m) \<and> sublist cn m \<and>
        (\<not> dict_contains (last_checkpoint s) t \<and> State_is_table s t \<longrightarrow> sublist t m) \<and>
        (dict_contains (last_checkpoint s) t \<or> \<not> State_is_table s t \<longrightarrow>
           m = ''checkpoint '' @ quoted cn @ '' not in checkpoints.''))"
  proof
    assume a: "(\<forall>x \<in> set (checkpoints s). map_of x ''checkpoint_name'' \<noteq> None) \<and>
      (\<forall>x \<in> set (checkpoints s). map_of x ''checkpoint_name'' \<noteq> Some cn)"
    then have none: "find_checkpoint (checkpoints s) cn = Inr None"
      by (intro find_checkpoint_None) auto
    show "\<exists>m. State_get_table t (Some cn) s = Inl (RuntimeError m) \<and> sublist cn m \<and>
        (\<not> dict_contains (last_checkpoint s) t \<and> State_is_table s t \<longrightarrow> sublist t m) \<and>
        (dict_contains (last_checkpoint s) t \<or> \<not> State_is_table s t \<longrightarrow>
           m = ''checkpoint '' @ quoted cn @ '' not in checkpoints.'')"
    proof (cases "\<not> dict_contains (last_checkpoint s) t \<and> State_is_table s t")
      case True
      with first show ?thesis by blast
    next
      case False
      with none have "State_get_table t (Some cn) s =
          Inl (RuntimeError (''checkpoint '' @ quoted cn @ '' not in checkpoints.''))"
        by (auto simp: State_get_table_def)
      moreover have "sublist cn (''checkpoint '' @ quoted cn @ '' not in checkpoints.'')"
        by (rule sublist_quoted)
      ultimately show ?thesis using False by blast
    qed
  qed
  show "find_checkpoint (checkpoints s) cn = Inr (Some cp) \<and> dict_get cp t [] = [] \<longrightarrow>
     (\<exists>m. State_get_table t (Some cn) s = Inl (RuntimeError m) \<and> sublist cn m \<and> sublist t m)"
  proof
    assume a: "find_checkpoint (checkpoints s) cn = Inr (Some cp) \<and> dict_get cp t [] = []"
    show "\<exists>m. State_get_table t (Some cn) s = Inl (RuntimeError m) \<and> sublist cn m \<and> sublist t m"
    proof (cases "\<not> dict_contains (last_checkpoint s) t \<and> State_is_table s t")
      case True
      with first show ?thesis by blast
    next
      case False
      let ?m = "''table '' @ quoted t @ '' not in checkpoint '' @ quoted cn @ ''.''"
      from a False have "State_get_table t (Some cn) s = Inl (RuntimeError ?m)"
        by (auto simp: State_get_table_def)
      moreover have "sublist t ?m" by (rule sublist_quoted)
      moreover have "sublist cn ?m"
        using sublist_quoted [of cn "''table '' @ quoted t @ '' not in checkpoint ''" "''.''"]
        by simp
      ultimately show ?thesis by blast
    qed
  qed
qed


text \<open>Claim C6, as the code has it.  With a checkpoint name that no record of the log
  carries, \<^verbatim>\<open>get_table\<close> raises a \<^verbatim>\<open>RuntimeError\<close> whose message names the checkpoint; it
  names the table too only for a registered table that was never checkpointed, and is
  otherwise \<^verbatim>\<open>checkpoint '...' not in checkpoints.\<close>  With a checkpoint that exists but
  holds no version of the table (no entry, or the empty marker of a dropped table), the
  \<^verbatim>\<open>RuntimeError\<close> names both the table and the checkpoint.\<close>

theorem State_get_table_errors:
  "((\<forall>x \<in> set (checkpoints s). map_of x ''checkpoint_name'' \<noteq> None) \<and>
    (\<forall>x \<in> set (checkpoints s). map_of x ''checkpoint_name'' \<noteq> Some cn) \<longrightarrow>
     (\<exists>m. State_get_table t (Some cn) s = Inl (RuntimeError m) \<and> sublist cn m \<and>
        (\<not> dict_contains (last_checkpoint s) t \<and> State_is_table s t \<longrightarrow> sublist t m) \<and>
        (dict_contains (last_checkpoint s) t \<or> \<not> State_is_table s t \<longrightarrow>
           m = ''checkpoint '' @ quoted cn @ '' not in checkpoints.'')))
   \<and> (find_checkpoint (checkpoints s) cn = Inr (Some cp) \<and> dict_get cp t [] = [] \<longrightarrow>
     (\<exists>m. State_get_table t (Some cn) s = Inl (RuntimeError m) \<and> sublist cn m \<and> sublist t m))"
  by (intro conjI State_get_table_error_cases)

theorem State_get_table_errors_witness:
  "State_get_table ''persons'' (Some ''init'') checkpointed_state
     = Inl (RuntimeError ''table 'persons' not in checkpoint 'init'.'')
   \<and> State_get_table ''persons'' (Some ''nope'') checkpointed_state
     = Inl (RuntimeError ''checkpoint 'nope' not in checkpoints.'')
   \<and> find_checkpoint (checkpoints checkpointed_state) ''init''
     = Inr (Some [(''households'', ''init''), (''checkpoint_name'', ''init'')])
   \<and> sublist ''persons'' ''table 'persons' not in checkpoint 'init'.''
   \<and> sublist ''init'' ''table 'persons' not in checkpoint 'init'.''"
proof -
  let ?cp = "[(''households'', ''init''), (''checkpoint_name'', ''init'')]"
  have f: "find_checkpoint (checkpoints checkpointed_state) ''init'' = Inr (Some ?cp)"
    by (simp add: checkpointed_state_def empty_state_def)
  have g: "dict_get ?cp ''persons'' [] = []" by (simp add: dict_get_def)
  have wf: "\<forall>x \<in> set (checkpoints checkpointed_state). map_of x ''checkpoint_name'' \<noteq> None"
    "\<forall>x \<in> set (checkpoints checkpointed_state). map_of x ''checkpoint_name'' \<noteq> Some ''nope''"
    by (simp_all add: checkpointed_state_def empty_state_def)
  have nt: "\<not> State_is_table checkpointed_state ''persons''"
    by (simp add: State_is_table_def dict_contains_def checkpointed_state_def empty_state_def)
  have 1: "State_get_table ''persons'' (Some ''init'') checkpointed_state
     = Inl (RuntimeError ''table 'persons' not in checkpoint 'init'.'')"
    by (simp add: State_get_table_def f g nt quoted_def)
  from State_get_table_errors [of checkpointed_state "''nope''" "''persons''" ?cp] wf nt
  have 2: "State_get_table ''persons'' (Some ''nope'') checkpointed_state
     = Inl (RuntimeError ''checkpoint 'nope' not in checkpoints.'')"
    by (auto simp: quoted_def)
  from State_get_table_errors [of checkpointed_state "''init''" "''persons''" ?cp] f g 1
  have 3: "sublist ''persons'' ''table 'persons' not in checkpoint 'init'.''
    \<and> sublist ''init'' ''table 'persons' not in checkpoint 'init'.''"
    by auto
  from 1 2 3 f show ?thesis by blast
qed

text \<open>Claim C6 as stated fails: the message for a checkpoint that does not exist does not
  name the table.\<close>

theorem State_get_table_message_counterexample:
  "State_get_table ''households'' (Some ''nope'') checkpointed_state
     = Inl (RuntimeError ''checkpoint 'nope' not in checkpoints.'')
   \<and> \<not> sublist ''households'' ''checkpoint 'nope' not in checkpoints.''"
proof -
  have "State_get_table ''households'' (Some ''nope'') checkpointed_state
     = Inl (RuntimeError ''checkpoint 'nope' not in checkpoints.'')"
    by (simp add: State_get_table_def checkpointed_state_def empty_state_def dict_contains_def
        State_is_table_def quoted_def)
  moreover have "\<not> sublist ''households'' ''checkpoint 'nope' not in checkpoints.''"
    by code_simp
  ultimately show ?thesis by blast
qed



section \<open>\<^verbatim>\<open>State.extend_table\<close> on axis 0\<close>

lemma fold_fillna_columns:
  "columns (fold (\<lambda>c df. fillna_column c [] df) cs df) =
     map (\<lambda>(n, d, vs). if n \<in> set cs then (n, d, map (fillna []) vs) else (n, d, vs)) (columns df)"
proof (induction cs arbitrary: df)
  case Nil
  show ?case by (simp add: case_prod_unfold)
next
  case (Cons c cs)
  have idem: "map (fillna []) (map (fillna []) vs) = map (fillna []) vs" for vs
    by (simp add: fillna_def)
  have "columns (fold (\<lambda>c df. fillna_column c [] df) (c # cs) df) =
      map (\<lambda>(n, d, vs). if n \<in> set cs then (n, d, map (fillna []) vs) else (n, d, vs))
        (map (\<lambda>(n, d, vs). if n = c then (n, d, map (fillna []) vs) else (n, d, vs)) (columns df))"
    by (simp add: Cons.IH) (simp add: fillna_column_def)
  also have "\<dots> = map (\<lambda>(n, d, vs). if n \<in> set (c # cs) then (n, d, map (fillna []) vs)
        else (n, d, vs)) (columns df)"
    by (auto simp: fillna_def)
  finally show ?case .
qed

lemma fold_fillna_index:
  "index (fold (\<lambda>c df. fillna_column c [] df) cs df) = index df"
  by (induction cs arbitrary: df) (simp_all add: fillna_column_def)

lemma map_of_keyed: "map_of (map (\<lambda>k. (k, f k)) ks) k = (if k \<in> set ks then Some (f k) else None)"
  by (induction ks) auto

lemma State_get_dataframe_cached:
  assumes "map_of (context_dict s) name = Some (DataFrame t)"
  shows "State_get_dataframe R name s = Inr (t, s)"
  using assms by (simp add: State_get_dataframe_def dict_get_def)

lemma index_intersection_empty:
  "index_intersection xs ys = [] \<longleftrightarrow> set xs \<inter> set ys = {}"
  by (auto simp: index_intersection_def filter_empty_conv)

lemma extended_rows_index: "index (extended_rows t df) = index t @ index df"
  by (simp add: extended_rows_def fold_fillna_index pd_concat_rows_def)

lemma extended_rows_columns:
  "columns (extended_rows t df) =
     map (\<lambda>c. (c, concat_dtype t df c,
            if c \<in> set (column_names t) \<and> c \<notin> set (column_names df)
               \<and> column_dtype t c = Some ObjectDtype
            then map (fillna []) (column_values t c @ column_values df c)
            else column_values t c @ column_values df c))
       (column_names t @ filter (\<lambda>c. c \<notin> set (column_names t)) (column_names df))"
  by (simp add: extended_rows_def fold_fillna_columns pd_concat_rows_def)

lemma extended_rows_names:
  "column_names (extended_rows t df) =
     column_names t @ filter (\<lambda>c. c \<notin> set (column_names t)) (column_names df)"
  by (simp add: column_names_def [of "extended_rows t df"] extended_rows_columns comp_def)

lemma extended_rows_values:
  assumes "c \<in> set (column_names t)"
  shows "column_values (extended_rows t df) c =
     (if c \<notin> set (column_names df) \<and> column_dtype t c = Some ObjectDtype
      then map (fillna []) (column_values t c) @ replicate (length (index df)) (Str [])
      else column_values t c @ column_values df c)"
proof -
  have absent: "column_values df c = replicate (length (index df)) Null"
    if "c \<notin> set (column_names df)"
  proof -
    from that have "map_of (columns df) c = None"
      by (simp add: column_names_def map_of_eq_None_iff)
    then show ?thesis by (simp add: column_values_def)
  qed
  show ?thesis
    unfolding column_values_def [of "extended_rows t df"] extended_rows_columns map_of_keyed
    using assms absent by (simp add: fillna_def)
qed


lemma State_extend_table_axis0:
  assumes "State_is_table s name"
    and "map_of (context_dict s) name = Some (DataFrame t)"
  shows "State_extend_table R name df 0 s =
     (if set (index t) \<inter> set (index df) \<noteq> {} then Inl AssertionError
      else case State_add_table R name (DataFrame (extended_rows t df)) None s of
             Inl e \<Rightarrow> Inl e
           | Inr s' \<Rightarrow> Inr (extended_rows t df, s'))"
  using assms
  by (simp add: State_extend_table_def State_get_dataframe_cached extended_rows_def Let_def
      index_intersection_empty split: sum.splits)

lemma State_add_table_total: "\<exists>s'. State_add_table R name v salient s = Inr s'"
  unfolding State_add_table_def State_set_def Let_def using drop_total(2) by blast

text \<open>Claim C5.  For an existing table held in the context as a data frame,
  \<^verbatim>\<open>extend_table\<close> with axis 0 fails the assertion when the two indexes share a label.
  When they are disjoint it registers and returns a frame whose index is the old index
  followed by the new one and whose columns are the old columns in their order followed by
  the columns only the new rows have; an old object column that the new rows lack has the
  empty string in every appended row (and in place of its old nulls), every other old
  column has the old values followed by the new ones.\<close>

theorem State_extend_table_rows:
  assumes "State_is_table s name"
    and "map_of (context_dict s) name = Some (DataFrame t)"
  shows "(set (index t) \<inter> set (index df) \<noteq> {} \<longrightarrow>
        State_extend_table R name df 0 s = Inl AssertionError)
    \<and> (set (index t) \<inter> set (index df) = {} \<longrightarrow>
        (\<exists>df' s'. State_extend_table R name df 0 s = Inr (df', s')
           \<and> State_add_table R name (DataFrame df') None s = Inr s'
           \<and> index df' = index t @ index df
           \<and> column_names df' =
               column_names t @ filter (\<lambda>c. c \<notin> set (column_names t)) (column_names df)
           \<and> (\<forall>c \<in> set (column_names t).
                 column_values df' c =
                   (if c \<notin> set (column_names df) \<and> column_dtype t c = Some ObjectDtype
                    then map (fillna []) (column_values t c)
                           @ replicate (length (index df)) (Str [])
                    else column_values t c @ column_values df c))))"
proof (intro conjI impI)
  assume "set (index t) \<inter> set (index df) \<noteq> {}"
  then show "State_extend_table R name df 0 s = Inl AssertionError"
    by (simp add: State_extend_table_axis0 [OF assms])
next
  assume disjoint: "set (index t) \<inter> set (index df) = {}"
  from State_add_table_total obtain s'
    where s': "State_add_table R name (DataFrame (extended_rows t df)) None s = Inr s'"
    by blast
  with disjoint have "State_extend_table R name df 0 s = Inr (extended_rows t df, s')"
    by (simp add: State_extend_table_axis0 [OF assms])
  with s' show "\<exists>df' s'. State_extend_table R name df 0 s = Inr (df', s')
           \<and> State_add_table R name (DataFrame df') None s = Inr s'
           \<and> index df' = index t @ index df
           \<and> column_names df' =
               column_names t @ filter (\<lambda>c. c \<notin> set (column_names t)) (column_names df)
           \<and> (\<forall>c \<in> set (column_names t).
                 column_values df' c =
                   (if c \<notin> set (column_names df) \<and> column_dtype t c = Some ObjectDtype
                    then map (fillna []) (column_values t c)
                           @ replicate (length (index df)) (Str [])
                    else column_values t c @ column_values df c))"
    using extended_rows_index [of t df] extended_rows_names [of t df]
      extended_rows_values [of _ t df]
    by (intro exI [of _ "extended_rows t df"] exI [of _ s']) simp
qed

theorem State_extend_table_rows_witness:
  "State_extend_table no_registry ''persons'' new_persons 0 persons_state =
     Inr (\<lparr>index = [1, 2, 3],
           columns = [(''name'', ObjectDtype, [Str ''ann'', Str ''bob'', Str []]),
                      (''age'', NumericDtype, [Num 30, Num 41, Num 25])]\<rparr>,
          persons_state\<lparr>context_dict :=
             [(''persons'', DataFrame \<lparr>index = [1, 2, 3],
                 columns = [(''name'', ObjectDtype, [Str ''ann'', Str ''bob'', Str []]),
                            (''age'', NumericDtype, [Num 30, Num 41, Num 25])]\<rparr>)],
            existing_table_status := [(''persons'', True)]\<rparr>)
   \<and> State_extend_table no_registry ''persons'' persons_table 0 persons_state
       = Inl AssertionError"
proof -
  have 1: "State_is_table persons_state ''persons''"
    by (simp add: State_is_table_def dict_contains_def persons_state_def empty_state_def)
  have 2: "map_of (context_dict persons_state) ''persons'' = Some (DataFrame persons_table)"
    by (simp add: persons_state_def empty_state_def)
  have 3: "set (index persons_table) \<inter> set (index persons_table) \<noteq> {}"
    by (simp add: persons_table_def)
  have 4: "State_extend_table no_registry ''persons'' new_persons 0 persons_state =
     Inr (\<lparr>index = [1, 2, 3],
           columns = [(''name'', ObjectDtype, [Str ''ann'', Str ''bob'', Str []]),
                      (''age'', NumericDtype, [Num 30, Num 41, Num 25])]\<rparr>,
          persons_state\<lparr>context_dict :=
             [(''persons'', DataFrame \<lparr>index = [1, 2, 3],
                 columns = [(''name'', ObjectDtype, [Str ''ann'', Str ''bob'', Str []]),
                            (''age'', NumericDtype, [Num 30, Num 41, Num 25])]\<rparr>)],
            existing_table_status := [(''persons'', True)]\<rparr>)"
    by (simp add: State_extend_table_def State_is_table_def State_get_dataframe_def
        State_add_table_def State_set_def dict_contains_def dict_get_def persons_state_def
        empty_state_def no_registry_def persons_table_def new_persons_def
        index_intersection_def column_names_def column_dtype_def column_values_def
        pd_concat_rows_def concat_dtype_def fillna_column_def fillna_def Let_def)
  from State_extend_table_rows [OF 1 2, of persons_table no_registry] 3 4
  show ?thesis by blast
qed



section \<open>Reading a table back from a checkpoint\<close>











section \<open>Choosing a MAZ for every sampled TAZ\<close>

lemma insert_from_skip:
  assumes "\<forall>q. p \<le> q \<and> q < p + length ys \<longrightarrow> count_list obj q = 0"
  shows "insert_from p (ys @ zs) obj v = ys @ insert_from (p + length ys) zs obj v"
  using assms
proof (induction ys arbitrary: p)
  case Nil
  show ?case by simp
next
  case (Cons y ys)
  from Cons.prems have "count_list obj p = 0" by simp
  moreover from Cons.prems
  have "\<forall>q. Suc p \<le> q \<and> q < Suc p + length ys \<longrightarrow> count_list obj q = 0" by simp
  from Cons.IH [OF this]
  have "insert_from (Suc p) (ys @ zs) obj v = ys @ insert_from (Suc p + length ys) zs obj v" .
  ultimately show ?case by simp
qed

lemma inserts_behind_Cons:
  "inserts_behind m p (c # counts) = replicate (m - c) (p + c) @ inserts_behind m (p + c) counts"
  by (simp add: inserts_behind_def np_repeat_def)

lemma inserts_behind_greater:
  assumes "\<forall>c \<in> set counts. 0 < c" and "x \<in> set (inserts_behind m p counts)"
  shows "p < x"
  using assms
proof (induction counts arbitrary: p)
  case Nil
  then show ?case by (simp add: inserts_behind_def np_repeat_def)
next
  case (Cons c counts)
  from Cons.prems(1) have c: "0 < c" and rest: "\<forall>c \<in> set counts. 0 < c" by simp_all
  from Cons.prems(2) consider "x = p + c" | "x \<in> set (inserts_behind m (p + c) counts)"
    by (auto simp: inserts_behind_Cons)
  then show ?case
  proof cases
    case 1
    with c show ?thesis by simp
  next
    case 2
    from Cons.IH [OF rest 2] show ?thesis by simp
  qed
qed

lemma count_inserts_behind_le:
  assumes "\<forall>c \<in> set counts. 0 < c" and "q \<le> p"
  shows "count_list (inserts_behind m p counts) q = 0"
proof -
  from assms have "q \<notin> set (inserts_behind m p counts)"
    using inserts_behind_greater [of counts q m p] by auto
  then show ?thesis by (simp add: count_list_0_iff)
qed

lemma count_list_replicate: "count_list (replicate n x) y = (if x = y then n else 0)"
  by (induction n) auto

lemma insert_from_groups:
  assumes "\<forall>g \<in> set gs. g \<noteq> []"
    and "\<forall>q. p < q \<longrightarrow> count_list obj q = count_list (inserts_behind m p (map length gs)) q"
  shows "insert_from p (concat gs) obj 0 =
     replicate (count_list obj p) 0 @ concat (map (pad_to m) gs)"
  using assms
proof (induction gs arbitrary: p)
  case Nil
  show ?case by simp
next
  case (Cons g gs)
  from Cons.prems(1) obtain x g' where g: "g = x # g'" by (cases g) auto
  from Cons.prems(1) have pos: "\<forall>c \<in> set (map length gs). 0 < c" by simp
  define p' where "p' = p + length g"
  have p': "p < p'" "p' = Suc p + length g'" by (simp_all add: p'_def g)
  have cnt: "count_list obj q =
      (if q = p' then m - length g else 0) + count_list (inserts_behind m p' (map length gs)) q"
    if "p < q" for q
    using Cons.prems(2) that
    by (auto simp: inserts_behind_Cons count_list_replicate p'_def)
  have interior: "\<forall>q. Suc p \<le> q \<and> q < Suc p + length g' \<longrightarrow> count_list obj q = 0"
  proof (intro allI impI)
    fix q assume q: "Suc p \<le> q \<and> q < Suc p + length g'"
    then have "q \<le> p'" "q \<noteq> p'" "p < q" by (simp_all add: p')
    with cnt [of q] count_inserts_behind_le [OF pos, of q p' m] show "count_list obj q = 0"
      by simp
  qed
  have here: "count_list obj p' = m - length g"
    using cnt [of p'] count_inserts_behind_le [OF pos, of p' p' m] p'(1) by simp
  have later: "\<forall>q. p' < q \<longrightarrow>
      count_list obj q = count_list (inserts_behind m p' (map length gs)) q"
    using cnt p'(1) by simp
  from Cons.prems(1) have "\<forall>g \<in> set gs. g \<noteq> []" by simp
  from Cons.IH [OF this later]
  have rest: "insert_from p' (concat gs) obj 0 =
      replicate (m - length g) 0 @ concat (map (pad_to m) gs)"
    by (simp add: here)
  have a: "insert_from p (concat (g # gs)) obj 0 =
      replicate (count_list obj p) 0 @ x # insert_from (Suc p) (g' @ concat gs) obj 0"
    by (simp add: g)
  have b: "insert_from (Suc p) (g' @ concat gs) obj 0 = g' @ insert_from p' (concat gs) obj 0"
    using insert_from_skip [OF interior] by (simp add: p'(2))
  have c: "concat (map (pad_to m) (g # gs)) =
      x # g' @ replicate (m - length g) 0 @ concat (map (pad_to m) gs)"
    by (simp add: g pad_to_def)
  show ?case unfolding a b rest c by simp
qed

lemma np_insert_groups:
  assumes "\<forall>g \<in> set gs. g \<noteq> []"
  shows "np_insert (concat gs)
      (np_repeat (np_cumsum (map length gs)) (map (\<lambda>c. m - c) (map length gs))) 0
    = concat (map (pad_to m) gs)"
proof -
  let ?obj = "inserts_behind m 0 (map length gs)"
  from assms have pos: "\<forall>c \<in> set (map length gs). 0 < c" by simp
  have "insert_from 0 (concat gs) ?obj 0 =
      replicate (count_list ?obj 0) 0 @ concat (map (pad_to m) gs)"
    by (rule insert_from_groups [OF assms]) simp
  also have "count_list ?obj 0 = 0" by (rule count_inserts_behind_le [OF pos]) simp
  finally show ?thesis by (simp add: np_insert_def np_cumsum_def inserts_behind_def)
qed

lemma drop_concat_rows:
  assumes "\<forall>row \<in> set rows. length row = m"
  shows "drop (i * m) (concat rows) = concat (drop i rows)"
  using assms
proof (induction i arbitrary: rows)
  case 0
  show ?case by simp
next
  case (Suc i)
  show ?case
  proof (cases rows)
    case Nil
    then show ?thesis by simp
  next
    case (Cons r rs)
    with Suc.prems have "length r = m" "\<forall>row \<in> set rs. length row = m" by simp_all
    with Suc.IH [of rs] Cons show ?thesis by simp
  qed
qed

lemma reshape_concat:
  assumes "\<forall>row \<in> set rows. length row = m" and "0 < m"
  shows "reshape (concat rows) m = rows"
proof -
  have len: "length (concat rows) = length rows * m"
    using assms(1) by (induction rows) simp_all
  show ?thesis
  proof (rule nth_equalityI)
    show "length (reshape (concat rows) m) = length rows"
      using assms(2) by (simp add: reshape_def len)
  next
    fix i assume "i < length (reshape (concat rows) m)"
    then have i: "i < length rows" using assms(2) by (simp add: reshape_def len)
    then obtain r rs where d: "drop i rows = r # rs" by (cases "drop i rows") auto
    then have "r = rows ! i" using i by (metis nth_via_drop)
    moreover from d have "r \<in> set rows" by (metis in_set_dropD list.set_intros(1))
    with assms(1) have "length r = m" by simp
    ultimately have "take m (drop (i * m) (concat rows)) = rows ! i"
      by (simp add: drop_concat_rows [OF assms(1)] d)
    with i assms(2) show "reshape (concat rows) m ! i = rows ! i"
      by (simp add: reshape_def len)
  qed
qed

lemma padded_maz_sizes_rows:
  assumes "gs \<noteq> []" and "\<forall>g \<in> set gs. g \<noteq> []"
  shows "padded_maz_sizes (concat gs) (map length gs) =
     map (pad_to (Max (set (map length gs)))) gs"
proof -
  let ?m = "Max (set (map length gs))"
  have le: "length g \<le> ?m" if "g \<in> set gs" for g
    using that by (intro Max_ge) auto
  from assms obtain g where "g \<in> set gs" "g \<noteq> []" by (cases gs) auto
  with le [of g] have m: "0 < ?m" by (cases g) auto
  have "\<forall>row \<in> set (map (pad_to ?m) gs). length row = ?m"
    using le by (auto simp: pad_to_def)
  from this m show ?thesis
    unfolding padded_maz_sizes_def Let_def np_insert_groups [OF assms(2)]
    by (rule reshape_concat)
qed

lemma cumsum_from_append:
  "cumsum_from a (xs @ ys) = cumsum_from a xs @ cumsum_from (a + sum_list xs) ys"
  by (induction xs arbitrary: a) (simp_all add: add.assoc)

lemma cumsum_from_zeros: "cumsum_from (a::real) (replicate k 0) = replicate k a"
  by (induction k) simp_all

lemma length_cumsum_from [simp]: "length (cumsum_from a xs) = length xs"
  by (induction xs arbitrary: a) simp_all

lemma last_cumsum_from: "xs \<noteq> [] \<Longrightarrow> last (cumsum_from a xs) = a + sum_list xs"
proof (induction xs arbitrary: a)
  case Nil
  then show ?case by simp
next
  case (Cons x xs)
  show ?case
  proof (cases "xs = []")
    case True
    then show ?thesis by simp
  next
    case False
    have "cumsum_from (a + x) xs \<noteq> []"
      using False by (metis length_cumsum_from length_0_conv)
    with Cons.IH [OF False, of "a + x"] show ?thesis by (simp add: add.assoc)
  qed
qed

lemma takeWhile_shorter: "\<exists>x \<in> set xs. \<not> P x \<Longrightarrow> length (takeWhile P xs) < length xs"
  by (induction xs) auto

lemma np_argmax_padded:
  assumes "bs \<noteq> []"
  shows "np_argmax (bs @ replicate k (last bs)) < length bs"
proof (cases "True \<in> set bs")
  case True
  then have "\<exists>b \<in> set bs. \<not> Not b" by auto
  then have "length (takeWhile Not bs) < length bs"
    by (rule takeWhile_shorter)
  moreover from True have "takeWhile Not (bs @ replicate k (last bs)) = takeWhile Not bs"
    by (intro takeWhile_append1 [of True]) simp_all
  ultimately show ?thesis using True by (simp add: np_argmax_def)
next
  case False
  with assms have "\<not> last bs" using last_in_set [OF assms] by (cases "last bs") auto
  with False have "True \<notin> set (bs @ replicate k (last bs))" by auto
  with assms show ?thesis by (simp add: np_argmax_def del: set_append)
qed

text \<open>The cumulative probabilities of a padded row: those of the candidates, and their
  last value again in every padding slot.\<close>

lemma cumsum_padded_row:
  assumes "g \<noteq> []"
  shows "np_cumsum (map (\<lambda>x. x / (s::real)) (pad_to m g)) =
     np_cumsum (map (\<lambda>x. x / s) g)
       @ replicate (m - length g) (last (np_cumsum (map (\<lambda>x. x / s) g)))"
proof -
  from assms have ne: "map (\<lambda>x. x / s) g \<noteq> []" by simp
  show ?thesis
    unfolding np_cumsum_def pad_to_def
    by (simp add: cumsum_from_append cumsum_from_zeros last_cumsum_from [OF ne])
qed

lemma position_in_padded_row:
  assumes "g \<noteq> []"
  shows "np_argmax (map (\<lambda>c. c - rand > 0) (np_cumsum (map (\<lambda>x. x / (s::real)) (pad_to m g))))
     < length g"
proof -
  let ?cs = "np_cumsum (map (\<lambda>x. x / s) g)"
  let ?bs = "map (\<lambda>c. c - rand > 0) ?cs"
  from assms have cs: "?cs \<noteq> []"
    by (metis length_cumsum_from length_0_conv length_map np_cumsum_def)
  then have bs: "?bs \<noteq> []" by simp
  have "map (\<lambda>c. c - rand > 0) (np_cumsum (map (\<lambda>x. x / s) (pad_to m g))) =
      ?bs @ replicate (m - length g) (last ?bs)"
    by (simp add: cumsum_padded_row [OF assms] last_map [OF cs])
  with np_argmax_padded [OF bs, of "m - length g"] show ?thesis
    by (simp add: np_cumsum_def)
qed

lemma positions_below_counts:
  assumes "length rands = length groups" and "\<forall>g \<in> set groups. g \<noteq> []"
  shows "list_all2 (<)
     (choose_positions
        (maz_probs_of (padded_maz_sizes (concat groups) (map length groups))) rands)
     (map length groups)"
proof (cases "groups = []")
  case True
  with assms(1) show ?thesis by (simp add: choose_positions_def)
next
  case False
  define m where "m = Max (set (map length groups))"
  have rows: "padded_maz_sizes (concat groups) (map length groups) = map (pad_to m) groups"
    unfolding m_def by (rule padded_maz_sizes_rows [OF False assms(2)])
  show ?thesis
  proof (rule list_all2_all_nthI)
    show "length (choose_positions
        (maz_probs_of (padded_maz_sizes (concat groups) (map length groups))) rands)
      = length (map length groups)"
      using assms(1) by (simp add: choose_positions_def maz_probs_of_def rows)
  next
    fix i
    assume "i < length (choose_positions
        (maz_probs_of (padded_maz_sizes (concat groups) (map length groups))) rands)"
    then have i: "i < length groups" "i < length rands"
      using assms(1) by (simp_all add: choose_positions_def maz_probs_of_def rows)
    then have "groups ! i \<noteq> []" using assms(2) by simp
    from position_in_padded_row [OF this] i
    show "choose_positions
        (maz_probs_of (padded_maz_sizes (concat groups) (map length groups))) rands ! i
      < map length groups ! i"
      by (simp add: choose_positions_def maz_probs_of_def rows)
  qed
qed

text \<open>The assertion \<^verbatim>\<open>(positions < maz_counts).all()\<close> of \<^verbatim>\<open>choose_MAZ_for_TAZ\<close> holds for the
  candidates that the merge produces, whatever their size terms and the draws are.\<close>

lemma padding_assertion_holds:
  fixes MAZ_size_terms :: "maz_size_term list"
  assumes "length rands = length taz_choices"
  defines "maz_sizes \<equiv> map (maz_candidates MAZ_size_terms) taz_choices"
  shows "list_all2 (<)
     (choose_positions
        (maz_probs_of (padded_maz_sizes (map snd (concat maz_sizes)) (map length maz_sizes)))
        rands)
     (map length maz_sizes)"
proof -
  have "map snd (concat maz_sizes) = concat (map (map snd) maz_sizes)"
    "map length maz_sizes = map length (map (map snd) maz_sizes)"
    by (simp_all add: map_concat comp_def)
  moreover have "\<forall>g \<in> set (map (map snd) maz_sizes). g \<noteq> []"
    by (auto simp: maz_sizes_def maz_candidates_def Let_def)
  moreover from assms(1) have "length rands = length (map (map snd) maz_sizes)"
    by (simp add: maz_sizes_def)
  ultimately show ?thesis using positions_below_counts by metis
qed

lemma sum_list_divide: "sum_list (map (\<lambda>x. x / (s::real)) g) = sum_list g / s"
  by (induction g) (simp_all add: add_divide_distrib)

lemma sum_list_pad_to: "sum_list (pad_to m (g::real list)) = sum_list g"
  by (simp add: pad_to_def sum_list_replicate)

lemma draw_below_selected:
  fixes m :: nat and g :: "real list"
  assumes "g \<noteq> []" and "\<forall>x \<in> set g. 0 < x" and "rand < 1"
  defines "cs \<equiv> np_cumsum (map (\<lambda>x. x / sum_list (pad_to m g)) (pad_to m g))"
  shows "rand < cs ! np_argmax (map (\<lambda>c. c - rand > 0) cs)"
proof -
  let ?s = "sum_list (pad_to m g)"
  let ?cg = "np_cumsum (map (\<lambda>x. x / ?s) g)"
  let ?bs = "map (\<lambda>c. c - rand > 0) cs"
  from assms(1,2) have "0 < sum_list g"
    by (cases g) (auto intro!: add_pos_nonneg sum_list_nonneg simp: less_imp_le)
  then have s: "0 < ?s" by (simp add: sum_list_pad_to)
  from assms(1) have ne: "map (\<lambda>x. x / ?s) g \<noteq> []" by simp
  then have cg: "?cg \<noteq> []"
    by (metis length_cumsum_from length_0_conv np_cumsum_def)
  have "last ?cg = sum_list g / ?s"
    unfolding np_cumsum_def by (simp add: last_cumsum_from [OF ne] sum_list_divide)
  with s have one: "last ?cg = 1" by (simp add: sum_list_pad_to)
  have split: "cs = ?cg @ replicate (m - length g) (last ?cg)"
    unfolding cs_def by (rule cumsum_padded_row [OF assms(1)])
  from cg have "last ?cg \<in> set cs" unfolding split by simp
  with one assms(3) have "True \<in> set ?bs" by (auto simp: image_iff intro!: bexI [of _ 1])
  then have arg: "np_argmax ?bs = length (takeWhile Not ?bs)" by (simp add: np_argmax_def)
  from \<open>True \<in> set ?bs\<close> have "\<exists>b \<in> set ?bs. \<not> Not b" by auto
  then have lt: "length (takeWhile Not ?bs) < length ?bs" by (rule takeWhile_shorter)
  from nth_length_takeWhile [OF lt] have "?bs ! length (takeWhile Not ?bs)" by simp
  with lt show ?thesis unfolding arg by simp
qed

text \<open>Claim C2.  For candidate lists that are not empty and have positive size terms, and
  draws in \<open>[0, 1)\<close>, one for each row: every selected position is smaller than the number
  of candidates of its row, so the assertion after the choices holds, and the cumulative
  probability at the selected position exceeds the draw.  Size terms, probabilities and
  draws are real numbers.\<close>

theorem padding_never_selected:
  assumes "length rands = length groups"
    and "\<forall>g \<in> set groups. g \<noteq> [] \<and> (\<forall>x \<in> set g. 0 < x)"
    and "\<forall>r \<in> set rands. 0 \<le> r \<and> r < 1"
  defines "maz_probs \<equiv> maz_probs_of (padded_maz_sizes (concat groups) (map length groups))"
  defines "positions \<equiv> choose_positions maz_probs rands"
  shows "list_all2 (<) positions (map length groups)
    \<and> (\<forall>i < length groups. rands ! i < np_cumsum (maz_probs ! i) ! (positions ! i))"
proof (cases "groups = []")
  case True
  with assms(1) show ?thesis by (simp add: positions_def choose_positions_def)
next
  case False
  from assms(2) have ne: "\<forall>g \<in> set groups. g \<noteq> []" by blast
  define m where "m = Max (set (map length groups))"
  have rows: "padded_maz_sizes (concat groups) (map length groups) = map (pad_to m) groups"
    unfolding m_def by (rule padded_maz_sizes_rows [OF False ne])
  have len: "length positions = length groups"
    using assms(1) by (simp add: positions_def maz_probs_def choose_positions_def
        maz_probs_of_def rows)
  have row: "maz_probs ! i =
      map (\<lambda>x. x / sum_list (pad_to m (groups ! i))) (pad_to m (groups ! i))"
    if "i < length groups" for i
    using that by (simp add: maz_probs_def maz_probs_of_def rows)
  have pos: "positions ! i =
      np_argmax (map (\<lambda>c. c - rands ! i > 0) (np_cumsum (maz_probs ! i)))"
    if "i < length groups" for i
    using that assms(1) by (simp add: positions_def choose_positions_def maz_probs_def
        maz_probs_of_def rows)
  have "list_all2 (<) positions (map length groups)"
    unfolding positions_def maz_probs_def by (rule positions_below_counts [OF assms(1) ne])
  moreover have "rands ! i < np_cumsum (maz_probs ! i) ! (positions ! i)"
    if i: "i < length groups" for i
  proof -
    from i have "groups ! i \<in> set groups" by simp
    with assms(2) have g: "groups ! i \<noteq> []" "\<forall>x \<in> set (groups ! i). 0 < x" by blast+
    from i assms(1,3) have "rands ! i < 1" by simp
    from draw_below_selected [OF g this, of m] show ?thesis
      by (simp add: pos [OF i] row [OF i])
  qed
  ultimately show ?thesis by blast
qed

theorem padding_never_selected_witness:
  "list_all2 (<)
     (choose_positions
        (maz_probs_of (padded_maz_sizes (concat [[10, 30], [14]])
           (map length [[10, 30], [14::real]]))) [1/2, 9/10])
     (map length [[10, 30], [14::real]])
   \<and> choose_positions
        (maz_probs_of (padded_maz_sizes (concat [[10, 30], [14]])
           (map length [[10, 30], [14::real]]))) [1/2, 9/10] = [1, 0]"
proof -
  have 1: "length [1/2, 9/10::real] = length [[10, 30], [14::real]]" by simp
  have 2: "\<forall>g \<in> set [[10, 30], [14::real]]. g \<noteq> [] \<and> (\<forall>x \<in> set g. 0 < x)" by simp
  have 3: "\<forall>r \<in> set [1/2, 9/10::real]. 0 \<le> r \<and> r < 1" by simp
  have 4: "choose_positions
        (maz_probs_of (padded_maz_sizes (concat [[10, 30], [14]])
           (map length [[10, 30], [14::real]]))) [1/2, 9/10] = [1, 0]"
    by code_simp
  from padding_never_selected [OF 1 2 3] 4 show ?thesis by blast
qed












section \<open>Segments without choosers in \<^verbatim>\<open>run_tour_od\<close>\<close>

lemma segment_loop_no_tours:
  assumes "assign_columns steps = None"
    and "\<forall>segment \<in> set segments. \<exists>z. dest_size_terms_df steps segment = Inr z"
  shows "segment_loop steps settings [] persons segments (choices_list, sample_list)
    = Inr (choices_list, sample_list)"
  using assms by (induction segments) (auto simp: merge_persons_def)

lemma run_tour_od_no_tours:
  assumes "assign_columns steps = None"
    and "\<forall>segment \<in> set (SEGMENTS settings). \<exists>z. dest_size_terms_df steps segment = Inr z"
  shows "run_tour_od steps settings [] persons = Inl (UnboundLocalError ''choices_df'')"
  by (simp add: run_tour_od_def segment_loop_no_tours [OF assms])


lemma run_tour_od_skips_empty_segment:
  "run_tour_od constant_steps work_settings school_tours one_person = Inr ([3, 7], None)"
  by code_simp

end
